theory Spec2Isabelle
  imports Complex_Main
begin

section \<open>Values, arrays and the object store\<close>

text \<open>
  The module \<^verbatim>\<open>Cantera/python/Cantera/Func.py\<close> wraps one-variable functions of the
  Cantera kernel.  Its methods receive arbitrary Python values, allocate instances,
  write into \<^verbatim>\<open>Numeric\<close> arrays and call the extension module \<^verbatim>\<open>_cantera\<close>.  The model
  passes an explicit state: the arrays, the \<^verbatim>\<open>Func1\<close> instances and the calls received
  by the engine.  The constructors and the six operators are modelled; evaluation
  (\<^verbatim>\<open>__call__\<close>) and release (\<^verbatim>\<open>__del__\<close>) are not.

  Double-precision values are only carried by this module, never computed with; they
  are modelled by \<^typ>\<open>real\<close>.  A Python integer that is stored in an array of doubles
  is rounded to the nearest double, or refused when it is beyond the range of a double.
\<close>

type_synonym addr = nat

datatype pyval =
    PyFloat real
  | PyInt int
  | PySeq "pyval list"
  | PyArray addr
  | PyFunc addr

text \<open>
  \<open>PySeq\<close> stands for a list or a tuple (\<^verbatim>\<open>Numeric\<close> treats both as sequences),
  \<open>PyArray\<close> for a reference to a \<^verbatim>\<open>Numeric\<close> array and \<open>PyFunc\<close> for a reference to
  an instance of \<^verbatim>\<open>Func1\<close> or of one of its subclasses.
\<close>

datatype error =
    NameError string
  | ValueError
  | TypeError
  | IndexError
  | AttributeError
  | OverflowError
  | NumericError
  | BadReference

text \<open>
  \<open>NameError\<close> carries the name that is not bound.  \<open>OverflowError\<close> is raised for a
  Python integer beyond the range of a double.  \<open>NumericError\<close> stands for an exception
  raised inside \<^verbatim>\<open>Numeric\<close> when a value cannot be converted to an array of doubles.
  \<open>BadReference\<close> is returned for a reference to no allocated object; Python has no
  such references, the case only makes the model total.
\<close>

datatype typecode = TC_d | TC_l

record ndarray =
  typecode :: typecode
  shape :: "nat list"
  elems :: "real list"

text \<open>
  An array has a type code (\<^verbatim>\<open>'d'\<close> for doubles, \<^verbatim>\<open>'l'\<close> for integers), a shape and its
  elements in row-major order; the elements of an array of integers are whole numbers.
\<close>

datatype cls =
    ClsPolynomial
  | ClsFourier
  | ClsArrhenius
  | ClsSumFunction
  | ClsProdFunction
  | ClsRatioFunction

record func1 =
  obj_cls :: cls
  attr_n :: "int option"
  attr_coeffs :: "addr option"
  attr_func_id :: "nat option"
  attr_f1 :: "pyval option"
  attr_f2 :: "pyval option"

text \<open>
  An instance has its class and the attributes \<^verbatim>\<open>n\<close>, \<^verbatim>\<open>coeffs\<close>, \<^verbatim>\<open>_func_id\<close>, \<^verbatim>\<open>f1\<close> and
  \<^verbatim>\<open>f2\<close>, each unset (\<open>None\<close>) until an \<^verbatim>\<open>__init__\<close> assigns it.
\<close>

datatype engine_call =
    FuncNew int int "real list"
  | FuncNewCombo int nat nat

record state =
  arrays :: "ndarray list"
  objs :: "func1 list"
  engine :: "engine_call list"

definition s_empty :: state where
  "s_empty = \<lparr>arrays = [], objs = [], engine = []\<rparr>"

section \<open>The engine\<close>

text \<open>
  Modelled from the spec: the extension module \<^verbatim>\<open>_cantera\<close> (\<^verbatim>\<open>func_new\<close>,
  \<^verbatim>\<open>func_newcombo\<close>) is not part of the sources.  The spec gives
  \<^verbatim>\<open>engine.create(kind, arity, coefficients) -> handle\<close> and
  \<^verbatim>\<open>engine.createCombinator(combinatorKind, leftHandle, rightHandle) -> handle\<close>.
  Each call is recorded with its arguments, the coefficients as the flat sequence of the
  array's elements, and returns a new handle: the position of the call in the record.
\<close>

definition func_new :: "int \<Rightarrow> int \<Rightarrow> addr \<Rightarrow> state \<Rightarrow> nat \<times> state" where
  "func_new typ n a s =
     (length (engine s),
      s\<lparr>engine := engine s @ [FuncNew typ n (elems (arrays s ! a))]\<rparr>)"

text \<open>
  Modelled from the spec: \<^verbatim>\<open>_cantera.func_newcombo\<close>, the spec's
  \<^verbatim>\<open>engine.createCombinator\<close>, recorded in the same way.
\<close>

definition func_newcombo :: "int \<Rightarrow> nat \<Rightarrow> nat \<Rightarrow> state \<Rightarrow> nat \<times> state" where
  "func_newcombo code h1 h2 s =
     (length (engine s), s\<lparr>engine := engine s @ [FuncNewCombo code h1 h2]\<rparr>)"

section \<open>Numeric\<close>

text \<open>
  The conversion of a Python integer to a double.  Up to \<open>2\<^sup>5\<^sup>3\<close> in magnitude every
  integer is a double.  A larger one is rounded to 53 significant bits, to the nearest
  with ties to the even significand, as the C conversion does.  The largest double is
  \<open>2\<^sup>1\<^sup>0\<^sup>2\<^sup>4 - 2\<^sup>9\<^sup>7\<^sup>1\<close>; from the midpoint \<open>2\<^sup>1\<^sup>0\<^sup>2\<^sup>4 - 2\<^sup>9\<^sup>7\<^sup>0\<close> on, an integer would round
  to \<open>2\<^sup>1\<^sup>0\<^sup>2\<^sup>4\<close>, and the conversion raises \<^verbatim>\<open>OverflowError\<close>.
\<close>

fun bit_length :: "nat \<Rightarrow> nat" where
  "bit_length n = (if n = 0 then 0 else Suc (bit_length (n div 2)))"

declare bit_length.simps [simp del]

definition round_to_double :: "int \<Rightarrow> int" where
  "round_to_double i =
     (if \<bar>i\<bar> \<le> 2 ^ 53 then i
      else (let e = bit_length (nat \<bar>i\<bar>) - 53;
                q = \<bar>i\<bar> div 2 ^ e;
                r = \<bar>i\<bar> mod 2 ^ e;
                q' = (if 2 ^ e < 2 * r \<or> (2 * r = 2 ^ e \<and> odd q) then q + 1 else q)
            in sgn i * (q' * 2 ^ e)))"

definition int_to_double :: "int \<Rightarrow> error + real" where
  "int_to_double i =
     (if \<bar>i\<bar> < 2 ^ 1024 - 2 ^ 970 then Inr (real_of_int (round_to_double i))
      else Inl OverflowError)"

text \<open>
  The elements of an array as doubles: those of an array of integers are converted, and
  a machine integer is always within the range of a double.
\<close>

definition array_doubles :: "ndarray \<Rightarrow> real list" where
  "array_doubles a =
     (if typecode a = TC_d then elems a
      else map (\<lambda>x. real_of_int (round_to_double \<lfloor>x\<rfloor>)) (elems a))"

fun all_equal :: "'a list \<Rightarrow> bool" where
  "all_equal [] = True"
| "all_equal (x # xs) = list_all (\<lambda>y. y = x) xs"

fun collect :: "(error + 'a) list \<Rightarrow> error + 'a list" where
  "collect [] = Inr []"
| "collect (Inl e # rs) = Inl e"
| "collect (Inr x # rs) = (case collect rs of Inl e \<Rightarrow> Inl e | Inr xs \<Rightarrow> Inr (x # xs))"

text \<open>
  The shape and the elements of the array that \<^verbatim>\<open>Numeric\<close> builds from a value: a number
  is a scalar, a sequence of values of one common shape gets one more axis, an array
  gives its own contents, and anything else is refused.
\<close>

fun to_nd :: "ndarray list \<Rightarrow> pyval \<Rightarrow> error + (nat list \<times> real list)" where
  "to_nd st (PyFloat r) = Inr ([], [r])"
| "to_nd st (PyInt i) =
     (case int_to_double i of Inl e \<Rightarrow> Inl e | Inr r \<Rightarrow> Inr ([], [r]))"
| "to_nd st (PySeq vs) =
     (case collect (map (to_nd st) vs) of
        Inl e \<Rightarrow> Inl e
      | Inr rs \<Rightarrow>
          (if all_equal (map fst rs)
           then Inr (length rs # (case rs of [] \<Rightarrow> [] | r # _ \<Rightarrow> fst r), concat (map snd rs))
           else Inl NumericError))"
| "to_nd st (PyArray a) =
     (if a < length st then Inr (shape (st ! a), array_doubles (st ! a))
      else Inl BadReference)"
| "to_nd st (PyFunc a) = Inl NumericError"

definition alloc_array :: "ndarray \<Rightarrow> state \<Rightarrow> addr \<times> state" where
  "alloc_array a s = (length (arrays s), s\<lparr>arrays := arrays s @ [a]\<rparr>)"

text \<open>
  \<^verbatim>\<open>asarray(v, 'd')\<close> returns \<open>v\<close> itself when it is already an array of doubles, and a
  new array of doubles otherwise.
\<close>

definition asarray :: "pyval \<Rightarrow> state \<Rightarrow> (error + addr) \<times> state" where
  "asarray v s =
     (case v of
        PyArray a \<Rightarrow>
          (if a < length (arrays s)
           then (if typecode (arrays s ! a) = TC_d then (Inr a, s)
                 else (case alloc_array
                              \<lparr>typecode = TC_d, shape = shape (arrays s ! a),
                               elems = array_doubles (arrays s ! a)\<rparr> s of
                         (b, s') \<Rightarrow> (Inr b, s')))
           else (Inl BadReference, s))
      | _ \<Rightarrow>
          (case to_nd (arrays s) v of
             Inl e \<Rightarrow> (Inl e, s)
           | Inr (sh, es) \<Rightarrow>
               (case alloc_array \<lparr>typecode = TC_d, shape = sh, elems = es\<rparr> s of
                  (b, s') \<Rightarrow> (Inr b, s'))))"


text \<open>
  \<^verbatim>\<open>cc.shape\<close> unpacked as \<^verbatim>\<open>n, m = cc.shape\<close>: a shape that does not have exactly two
  entries cannot be unpacked.
\<close>

definition unpack2 :: "nat list \<Rightarrow> error + (nat \<times> nat)" where
  "unpack2 sh = (case sh of [n, m] \<Rightarrow> Inr (n, m) | _ \<Rightarrow> Inl ValueError)"

definition as_double :: "pyval \<Rightarrow> error + real" where
  "as_double v =
     (case v of PyFloat r \<Rightarrow> Inr r | PyInt i \<Rightarrow> int_to_double i | _ \<Rightarrow> Inl NumericError)"

text \<open>
  \<^verbatim>\<open>cc[i,j] = v\<close> on an array of doubles: the array itself is written, so every holder
  of the same array sees the new element.
\<close>

definition setitem :: "addr \<Rightarrow> nat \<Rightarrow> nat \<Rightarrow> pyval \<Rightarrow> state \<Rightarrow> (error + unit) \<times> state" where
  "setitem a i j v s =
     (case shape (arrays s ! a) of
        [n, m] \<Rightarrow>
          (if i < n \<and> j < m
           then (case as_double v of
                   Inl e \<Rightarrow> (Inl e, s)
                 | Inr r \<Rightarrow>
                     (Inr (),
                      s\<lparr>arrays := (arrays s)
                           [a := (arrays s ! a)\<lparr>elems := (elems (arrays s ! a))[i * m + j := r]\<rparr>]\<rparr>))
           else (Inl IndexError, s))
      | _ \<Rightarrow> (Inl IndexError, s))"

text \<open>The index tuples of a shape, in row-major order, and the offset of an index tuple.\<close>

fun indices :: "nat list \<Rightarrow> nat list list" where
  "indices [] = [[]]"
| "indices (d # ds) = concat (map (\<lambda>i. map ((#) i) (indices ds)) [0..<d])"

fun offset :: "nat list \<Rightarrow> nat list \<Rightarrow> nat" where
  "offset (d # ds) (i # ix) = i * prod_list ds + offset ds ix"
| "offset _ _ = 0"

text \<open>
  \<^verbatim>\<open>transpose(a)\<close> reverses the axes; \<^verbatim>\<open>ravel(a)\<close> is the one-dimensional array of the
  elements in row-major order.  Both give a new array object.  In \<^verbatim>\<open>Numeric\<close> the new
  object may share its buffer with \<open>a\<close>; this module writes to no array after it has
  taken a view of it, and the model gives the new object its own elements.
\<close>

definition transposed :: "ndarray \<Rightarrow> ndarray" where
  "transposed a =
     \<lparr>typecode = typecode a, shape = rev (shape a),
      elems = map (\<lambda>ix. elems a ! offset (shape a) (rev ix)) (indices (rev (shape a)))\<rparr>"

definition ravelled :: "ndarray \<Rightarrow> ndarray" where
  "ravelled a = \<lparr>typecode = typecode a, shape = [prod_list (shape a)], elems = elems a\<rparr>"

definition transpose_array :: "addr \<Rightarrow> state \<Rightarrow> addr \<times> state" where
  "transpose_array a s = alloc_array (transposed (arrays s ! a)) s"

definition ravel :: "addr \<Rightarrow> state \<Rightarrow> addr \<times> state" where
  "ravel a s = alloc_array (ravelled (arrays s ! a)) s"

text \<open>\<^verbatim>\<open>len(v)\<close>.\<close>

definition len :: "pyval \<Rightarrow> state \<Rightarrow> error + nat" where
  "len v s =
     (case v of
        PySeq vs \<Rightarrow> Inr (length vs)
      | PyArray a \<Rightarrow>
          (if a < length (arrays s)
           then (case shape (arrays s ! a) of [] \<Rightarrow> Inl TypeError | d # _ \<Rightarrow> Inr d)
           else Inl BadReference)
      | PyFunc _ \<Rightarrow> Inl AttributeError
      | _ \<Rightarrow> Inl TypeError)"

section \<open>The classes of the module\<close>

definition on_ok ::
  "(error + 'a) \<times> state \<Rightarrow> ('a \<Rightarrow> state \<Rightarrow> (error + 'b) \<times> state) \<Rightarrow> (error + 'b) \<times> state" where
  "on_ok r f = (case r of (Inl e, s) \<Rightarrow> (Inl e, s) | (Inr x, s) \<Rightarrow> f x s)"

text \<open>
  \<open>on_ok r f\<close> continues with \<open>f\<close> after a step that returned, and stops at a step
  that raised, keeping the state reached.
\<close>

definition alloc_obj :: "cls \<Rightarrow> state \<Rightarrow> addr \<times> state" where
  "alloc_obj c s =
     (length (objs s),
      s\<lparr>objs := objs s @
         [\<lparr>obj_cls = c, attr_n = None, attr_coeffs = None, attr_func_id = None,
           attr_f1 = None, attr_f2 = None\<rparr>]\<rparr>)"

definition upd_obj :: "addr \<Rightarrow> (func1 \<Rightarrow> func1) \<Rightarrow> state \<Rightarrow> state" where
  "upd_obj a f s = s\<lparr>objs := (objs s)[a := f (objs s ! a)]\<rparr>"

text \<open>
  \<^verbatim>\<open>Func1.__init__(self, typ, n, coeffs)\<close>: sets \<^verbatim>\<open>n\<close>, converts the coefficients, and
  registers the function with the engine.
\<close>

definition Func1_init :: "addr \<Rightarrow> int \<Rightarrow> int \<Rightarrow> pyval \<Rightarrow> state \<Rightarrow> (error + unit) \<times> state" where
  "Func1_init self typ n coeffs s =
     on_ok (asarray coeffs (upd_obj self (\<lambda>ob. ob\<lparr>attr_n := Some n\<rparr>) s))
       (\<lambda>a s2.
          case func_new typ n a (upd_obj self (\<lambda>ob. ob\<lparr>attr_coeffs := Some a\<rparr>) s2) of
            (h, s4) \<Rightarrow> (Inr (), upd_obj self (\<lambda>ob. ob\<lparr>attr_func_id := Some h\<rparr>) s4))"

text \<open>\<^verbatim>\<open>v.func_id()\<close>: only an instance with its \<^verbatim>\<open>_func_id\<close> set has one.\<close>

definition func_id :: "pyval \<Rightarrow> state \<Rightarrow> error + nat" where
  "func_id v s =
     (case v of
        PyFunc a \<Rightarrow>
          (if a < length (objs s)
           then (case attr_func_id (objs s ! a) of None \<Rightarrow> Inl AttributeError | Some h \<Rightarrow> Inr h)
           else Inl BadReference)
      | _ \<Rightarrow> Inl AttributeError)"

text \<open>
  \<^verbatim>\<open>raise CanteraError(msg)\<close>.  The names bound in the module are those it imports
  (\<^verbatim>\<open>array\<close>, \<^verbatim>\<open>asarray\<close>, \<^verbatim>\<open>ravel\<close>, \<^verbatim>\<open>shape\<close>, \<^verbatim>\<open>transpose\<close>, \<^verbatim>\<open>_cantera\<close>,
  \<^verbatim>\<open>types\<close>) and its own classes and \<^verbatim>\<open>Const\<close>.  \<^verbatim>\<open>CanteraError\<close> is not among
  them, so the statement raises \<^verbatim>\<open>NameError\<close> when it looks the name up, before any
  exception is built from the message.
\<close>

definition raise_unbound :: "string \<Rightarrow> string \<Rightarrow> error" where
  "raise_unbound name msg = NameError name"

definition Polynomial :: "pyval \<Rightarrow> state \<Rightarrow> (error + pyval) \<times> state" where
  "Polynomial coeffs s0 =
     (case alloc_obj ClsPolynomial s0 of
        (self, s1) \<Rightarrow>
          (case len coeffs s1 of
             Inl e \<Rightarrow> (Inl e, s1)
           | Inr l \<Rightarrow>
               on_ok (Func1_init self 2 (int l - 1) coeffs s1) (\<lambda>_ s2. (Inr (PyFunc self), s2))))"

definition Fourier :: "pyval \<Rightarrow> pyval \<Rightarrow> state \<Rightarrow> (error + pyval) \<times> state" where
  "Fourier omega c s0 =
     (case alloc_obj ClsFourier s0 of
        (self, s1) \<Rightarrow>
          on_ok (asarray c s1)
            (\<lambda>cc s2.
               case unpack2 (shape (arrays s2 ! cc)) of
                 Inl e \<Rightarrow> (Inl e, s2)
               | Inr (n, m) \<Rightarrow>
                   if m \<noteq> 2
                   then (Inl (raise_unbound ''CanteraError'' ''provide (a, b) for each term''), s2)
                   else on_ok (setitem cc 0 1 omega s2)
                     (\<lambda>_ s3.
                        case transpose_array cc s3 of
                          (t, s4) \<Rightarrow>
                            (case ravel t s4 of
                               (r, s5) \<Rightarrow>
                                 on_ok (Func1_init self 1 (int n - 1) (PyArray r) s5)
                                   (\<lambda>_ s6. (Inr (PyFunc self), s6))))))"

definition Arrhenius :: "pyval \<Rightarrow> state \<Rightarrow> (error + pyval) \<times> state" where
  "Arrhenius c s0 =
     (case alloc_obj ClsArrhenius s0 of
        (self, s1) \<Rightarrow>
          on_ok (asarray c s1)
            (\<lambda>cc s2.
               case unpack2 (shape (arrays s2 ! cc)) of
                 Inl e \<Rightarrow> (Inl e, s2)
               | Inr (n, m) \<Rightarrow>
                   if m \<noteq> 3
                   then (Inl (raise_unbound ''CanteraError''
                                ''Three Arrhenius parameters (A, b, E) required.''), s2)
                   else (case ravel cc s2 of
                           (r, s3) \<Rightarrow>
                             on_ok (Func1_init self 3 (int n) (PyArray r) s3)
                               (\<lambda>_ s4. (Inr (PyFunc self), s4)))))"

definition Const :: "pyval \<Rightarrow> state \<Rightarrow> (error + pyval) \<times> state" where
  "Const v s = Polynomial (PySeq [v]) s"

text \<open>
  The three combining classes have the same \<^verbatim>\<open>__init__\<close> up to the code passed to
  \<^verbatim>\<open>func_newcombo\<close>: the children and \<^verbatim>\<open>n = -1\<close> are stored, then the handles of the
  children are read, left one first, and the combination is registered.
\<close>

definition combo_init :: "cls \<Rightarrow> int \<Rightarrow> pyval \<Rightarrow> pyval \<Rightarrow> state \<Rightarrow> (error + pyval) \<times> state" where
  "combo_init c code f1 f2 s0 =
     (case alloc_obj c s0 of
        (self, s1) \<Rightarrow>
          (let s2 = upd_obj self
                      (\<lambda>ob. ob\<lparr>attr_f1 := Some f1, attr_f2 := Some f2, attr_n := Some (- 1)\<rparr>) s1
           in case func_id f1 s2 of
                Inl e \<Rightarrow> (Inl e, s2)
              | Inr h1 \<Rightarrow>
                  (case func_id f2 s2 of
                     Inl e \<Rightarrow> (Inl e, s2)
                   | Inr h2 \<Rightarrow>
                       (case func_newcombo code h1 h2 s2 of
                          (h, s3) \<Rightarrow>
                            (Inr (PyFunc self),
                             upd_obj self (\<lambda>ob. ob\<lparr>attr_func_id := Some h\<rparr>) s3)))))"

definition SumFunction :: "pyval \<Rightarrow> pyval \<Rightarrow> state \<Rightarrow> (error + pyval) \<times> state" where
  "SumFunction f1 f2 s = combo_init ClsSumFunction 20 f1 f2 s"

definition ProdFunction :: "pyval \<Rightarrow> pyval \<Rightarrow> state \<Rightarrow> (error + pyval) \<times> state" where
  "ProdFunction f1 f2 s = combo_init ClsProdFunction 30 f1 f2 s"

definition RatioFunction :: "pyval \<Rightarrow> pyval \<Rightarrow> state \<Rightarrow> (error + pyval) \<times> state" where
  "RatioFunction f1 f2 s = combo_init ClsRatioFunction 40 f1 f2 s"

subsection \<open>The operators of \<^verbatim>\<open>Func1\<close>\<close>

definition is_FloatType :: "pyval \<Rightarrow> bool" where
  "is_FloatType v = (case v of PyFloat _ \<Rightarrow> True | _ \<Rightarrow> False)"

text \<open>\<^verbatim>\<open>__add__\<close> and \<^verbatim>\<open>__radd__\<close> wrap an operand of type \<^verbatim>\<open>float\<close> with \<^verbatim>\<open>Const\<close>.\<close>

definition Func1_add :: "addr \<Rightarrow> pyval \<Rightarrow> state \<Rightarrow> (error + pyval) \<times> state" where
  "Func1_add self other s =
     (if is_FloatType other
      then on_ok (Const other s) (\<lambda>c s1. SumFunction (PyFunc self) c s1)
      else SumFunction (PyFunc self) other s)"

definition Func1_radd :: "addr \<Rightarrow> pyval \<Rightarrow> state \<Rightarrow> (error + pyval) \<times> state" where
  "Func1_radd self other s =
     (if is_FloatType other
      then on_ok (Const other s) (\<lambda>c s1. SumFunction c (PyFunc self) s1)
      else SumFunction other (PyFunc self) s)"

definition Func1_mul :: "addr \<Rightarrow> pyval \<Rightarrow> state \<Rightarrow> (error + pyval) \<times> state" where
  "Func1_mul self other s = ProdFunction (PyFunc self) other s"

definition Func1_rmul :: "addr \<Rightarrow> pyval \<Rightarrow> state \<Rightarrow> (error + pyval) \<times> state" where
  "Func1_rmul self other s = ProdFunction other (PyFunc self) s"

definition Func1_div :: "addr \<Rightarrow> pyval \<Rightarrow> state \<Rightarrow> (error + pyval) \<times> state" where
  "Func1_div self other s = RatioFunction (PyFunc self) other s"

definition Func1_rdiv :: "addr \<Rightarrow> pyval \<Rightarrow> state \<Rightarrow> (error + pyval) \<times> state" where
  "Func1_rdiv self other s = RatioFunction other (PyFunc self) s"


section \<open>Well-formed inputs\<close>

text \<open>
  The inputs the constructors are written for: a number is a Python float or integer, a
  term is a tuple of numbers or, for a caller that passes no tuples, a bare number.
\<close>

datatype number = NFloat real | NInt int

fun of_number :: "number \<Rightarrow> pyval" where
  "of_number (NFloat r) = PyFloat r"
| "of_number (NInt i) = PyInt i"

text \<open>
  \<open>fits x\<close>: the number converts to a double; \<open>double_of x\<close> is that double.
\<close>

fun fits :: "number \<Rightarrow> bool" where
  "fits (NFloat r) = True"
| "fits (NInt i) = (\<bar>i\<bar> < 2 ^ 1024 - 2 ^ 970)"

fun double_of :: "number \<Rightarrow> real" where
  "double_of (NFloat r) = r"
| "double_of (NInt i) = real_of_int (round_to_double i)"

datatype fterm = Bare number | Tuple "number list"

fun of_fterm :: "fterm \<Rightarrow> pyval" where
  "of_fterm (Bare x) = of_number x"
| "of_fterm (Tuple xs) = PySeq (map of_number xs)"

fun is_tuple :: "nat \<Rightarrow> fterm \<Rightarrow> bool" where
  "is_tuple k (Tuple xs) = (length xs = k)"
| "is_tuple k (Bare x) = False"

fun term_shape :: "fterm \<Rightarrow> nat list" where
  "term_shape (Bare x) = []"
| "term_shape (Tuple xs) = [length xs]"

fun term_values :: "fterm \<Rightarrow> real list" where
  "term_values (Bare x) = [double_of x]"
| "term_values (Tuple xs) = map double_of xs"

fun term_fits :: "fterm \<Rightarrow> bool" where
  "term_fits (Bare x) = fits x"
| "term_fits (Tuple xs) = list_all fits xs"

definition term_seq :: "fterm list \<Rightarrow> pyval" where
  "term_seq ts = PySeq (map of_fterm ts)"

definition pairs :: "(number \<times> number) list \<Rightarrow> fterm list" where
  "pairs ps = map (\<lambda>p. Tuple [fst p, snd p]) ps"

definition triples :: "(number \<times> number \<times> number) list \<Rightarrow> fterm list" where
  "triples ps = map (\<lambda>p. Tuple [fst p, fst (snd p), snd (snd p)]) ps"

text \<open>
  \<open>is_function s a\<close>: \<open>a\<close> is an instance that finished its \<^verbatim>\<open>__init__\<close>, so that it
  has a handle.
\<close>

definition is_function :: "state \<Rightarrow> addr \<Rightarrow> bool" where
  "is_function s a = (a < length (objs s) \<and> attr_func_id (objs s ! a) \<noteq> None)"

text \<open>
  \<open>unchanged s s'\<close>: every instance, every array and every engine registration of \<open>s\<close>
  is in \<open>s'\<close> as it was.
\<close>

definition unchanged :: "state \<Rightarrow> state \<Rightarrow> bool" where
  "unchanged s s' =
     (take (length (objs s)) (objs s') = objs s \<and>
      take (length (arrays s)) (arrays s') = arrays s \<and>
      take (length (engine s)) (engine s') = engine s)"

text \<open>
  \<open>new_combinator c s r\<close>: the result \<open>r\<close> of an operator run in \<open>s\<close> is an instance of
  class \<open>c\<close> that did not exist in \<open>s\<close>.
\<close>

definition new_combinator :: "cls \<Rightarrow> state \<Rightarrow> (error + pyval) \<times> state \<Rightarrow> bool" where
  "new_combinator c s r =
     (case r of
        (Inr (PyFunc a), s') \<Rightarrow>
          length (objs s) \<le> a \<and> a < length (objs s') \<and> obj_cls (objs s' ! a) = c \<and>
          attr_func_id (objs s' ! a) \<noteq> None
      | _ \<Rightarrow> False)"

text \<open>
  \<open>leaf_view s v\<close>: what a leaf function is made of: its class, its \<^verbatim>\<open>n\<close>, and the shape
  and the elements of its coefficient array.
\<close>

definition leaf_view ::
  "state \<Rightarrow> pyval \<Rightarrow> (cls \<times> int option \<times> (nat list \<times> real list) option) option" where
  "leaf_view s v =
     (case v of
        PyFunc a \<Rightarrow>
          (if a < length (objs s)
           then Some (obj_cls (objs s ! a), attr_n (objs s ! a),
                      (case attr_coeffs (objs s ! a) of
                         None \<Rightarrow> None
                       | Some c \<Rightarrow> Some (shape (arrays s ! c), elems (arrays s ! c))))
           else None)
      | _ \<Rightarrow> None)"

text \<open>The handle of an instance that has one.\<close>

definition handle_of :: "state \<Rightarrow> addr \<Rightarrow> nat" where
  "handle_of s a = the (attr_func_id (objs s ! a))"

text \<open>The state after \<^verbatim>\<open>F = Polynomial([1.0])\<close> in an empty state; \<open>F\<close> is the instance 0.\<close>

definition s_F :: state where
  "s_F = snd (Polynomial (PySeq [PyFloat 1]) s_empty)"

text \<open>
  The state after \<^verbatim>\<open>F = Polynomial([1.0])\<close> and \<^verbatim>\<open>G = Polynomial([6.0, 8.0])\<close>; \<open>F\<close> is the
  instance 0 and \<open>G\<close> the instance 1.
\<close>

definition s_FG :: state where
  "s_FG = snd (Polynomial (PySeq [PyFloat 6, PyFloat 8]) s_F)"

section \<open>Conversion of well-formed inputs\<close>

lemma to_nd_of_number:
  "to_nd st (of_number x) = (if fits x then Inr ([], [double_of x]) else Inl OverflowError)"
  by (cases x) (simp_all add: int_to_double_def)

text \<open>Above \<open>2\<^sup>5\<^sup>3\<close> an integer is rounded, with ties to the even significand.\<close>

lemma rounds_above_2_53:
  "double_of (NInt (2 ^ 53 + 1)) = 2 ^ 53 \<and> double_of (NInt (2 ^ 53 + 3)) = 2 ^ 53 + 4"
  by (simp add: round_to_double_def bit_length.simps Let_def)

lemma collect_numbers:
  "collect (map (\<lambda>x. to_nd st (of_number x)) xs) =
     (if list_all fits xs then Inr (map (\<lambda>x. ([], [double_of x])) xs) else Inl OverflowError)"
  by (induction xs) (simp_all add: to_nd_of_number)

lemma all_equal_replicate: "all_equal (map (\<lambda>x. c) xs)"
  by (cases xs) (simp_all add: list_all_iff)

lemma to_nd_numbers:
  "to_nd st (PySeq (map of_number xs)) =
     (if list_all fits xs then Inr ([length xs], map double_of xs) else Inl OverflowError)"
  by (auto simp: collect_numbers comp_def all_equal_replicate split: list.splits)

lemma to_nd_of_fterm:
  "to_nd st (of_fterm t) =
     (if term_fits t then Inr (term_shape t, term_values t) else Inl OverflowError)"
proof (cases t)
  case (Bare x)
  then show ?thesis by (simp add: to_nd_of_number)
next
  case (Tuple xs)
  with to_nd_numbers [of st xs] show ?thesis by simp
qed

lemma collect_terms:
  "collect (map (\<lambda>t. to_nd st (of_fterm t)) ts) =
     (if list_all term_fits ts then Inr (map (\<lambda>t. (term_shape t, term_values t)) ts)
      else Inl OverflowError)"
  by (induction ts) (simp_all add: to_nd_of_fterm)

lemma to_nd_term_seq:
  "to_nd st (term_seq ts) =
     (if list_all term_fits ts
      then (if all_equal (map term_shape ts)
            then Inr (length ts # (case ts of [] \<Rightarrow> [] | t # _ \<Rightarrow> term_shape t),
                      concat (map term_values ts))
            else Inl NumericError)
      else Inl OverflowError)"
  by (simp add: term_seq_def collect_terms comp_def split: list.splits)

lemma indices_2n: "indices [2, n] = map (\<lambda>i. [0, i]) [0..<n] @ map (\<lambda>i. [1, i]) [0..<n]"
  by (simp add: upt_conv_Cons comp_def numeral_2_eq_2)

lemma transposed_n2:
  "shape a = [n, 2] \<Longrightarrow>
   transposed a = \<lparr>typecode = typecode a, shape = [2, n],
     elems = map (\<lambda>i. elems a ! (i * 2)) [0..<n] @ map (\<lambda>i. elems a ! (Suc (i * 2))) [0..<n]\<rparr>"
  by (simp add: transposed_def indices_2n comp_def del: indices.simps)


lemma as_double_of_number:
  "as_double (of_number x) = (if fits x then Inr (double_of x) else Inl OverflowError)"
  by (cases x) (simp_all add: as_double_def int_to_double_def)

lemma Fourier_body:
  assumes conv: "asarray c (snd (alloc_obj ClsFourier s)) =
                   (Inr cc, (snd (alloc_obj ClsFourier s))\<lparr>arrays := A\<rparr>)"
    and cc: "cc < length A" and sh: "shape (A ! cc) = [n, 2]"
    and tc: "typecode (A ! cc) = TC_d" and n: "0 < n" and om: "fits om"
    and B: "B = (A ! cc)\<lparr>elems := (elems (A ! cc))[1 := double_of om]\<rparr>"
  shows "Fourier (of_number om) c s =
     (Inr (PyFunc (length (objs s))),
      \<lparr>arrays = A[cc := B] @ [transposed B, ravelled (transposed B)],
       objs = objs s @
         [\<lparr>obj_cls = ClsFourier, attr_n = Some (int n - 1),
           attr_coeffs = Some (Suc (length A)), attr_func_id = Some (length (engine s)),
           attr_f1 = None, attr_f2 = None\<rparr>],
       engine = engine s @ [FuncNew 1 (int n - 1) (elems (transposed B))]\<rparr>)"
  using conv cc sh tc n om
  by (simp add: Fourier_def alloc_obj_def on_ok_def unpack2_def setitem_def
      as_double_of_number transpose_array_def ravel_def alloc_array_def Func1_init_def
      upd_obj_def asarray_def func_new_def B nth_append transposed_def ravelled_def)


lemma length_concat_pairs: "length (concat (map (\<lambda>p. [f p, g p]) ps)) = length ps * 2"
  by (induction ps) simp_all

lemma nth_concat_pairs:
  "i < length ps \<Longrightarrow>
   concat (map (\<lambda>p. [f p, g p]) ps) ! (i * 2) = f (ps ! i) \<and>
   concat (map (\<lambda>p. [f p, g p]) ps) ! (Suc (i * 2)) = g (ps ! i)"
proof (induction ps arbitrary: i)
  case Nil
  then show ?case by simp
next
  case (Cons p ps)
  then show ?case by (cases i) simp_all
qed

lemma columns_of_pairs:
  fixes f g :: "'p \<Rightarrow> 'v" and w :: 'v
  assumes "ps \<noteq> []"
  defines "e \<equiv> (concat (map (\<lambda>p. [f p, g p]) ps))[1 := w]"
  shows "map (\<lambda>i. e ! (i * 2)) [0..<length ps] @ map (\<lambda>i. e ! (Suc (i * 2))) [0..<length ps]
         = map f ps @ w # map g (tl ps)"
proof -
  have len: "length e = length ps * 2"
    by (simp add: e_def length_concat_pairs)
  have a: "map (\<lambda>i. e ! (i * 2)) [0..<length ps] = map f ps"
  proof (rule nth_equalityI)
    show "length (map (\<lambda>i. e ! (i * 2)) [0..<length ps]) = length (map f ps)" by simp
  next
    fix i assume "i < length (map (\<lambda>i. e ! (i * 2)) [0..<length ps])"
    then have i: "i < length ps" by simp
    have "i * 2 \<noteq> 1" by presburger
    then have "e ! (i * 2) = concat (map (\<lambda>p. [f p, g p]) ps) ! (i * 2)"
      by (simp add: e_def)
    with i show "map (\<lambda>i. e ! (i * 2)) [0..<length ps] ! i = map f ps ! i"
      by (simp add: nth_concat_pairs)
  qed
  have b: "map (\<lambda>i. e ! (Suc (i * 2))) [0..<length ps] = w # map g (tl ps)"
  proof (rule nth_equalityI)
    from assms(1) show "length (map (\<lambda>i. e ! (Suc (i * 2))) [0..<length ps]) = length (w # map g (tl ps))"
      by (cases ps) simp_all
  next
    fix i assume "i < length (map (\<lambda>i. e ! (Suc (i * 2))) [0..<length ps])"
    then have i: "i < length ps" by simp
    show "map (\<lambda>i. e ! (Suc (i * 2))) [0..<length ps] ! i = (w # map g (tl ps)) ! i"
    proof (cases i)
      case 0
      from assms(1) have "1 < length (concat (map (\<lambda>p. [f p, g p]) ps))"
        by (cases ps) (simp_all add: length_concat_pairs)
      with 0 i show ?thesis by (simp add: e_def)
    next
      case (Suc j)
      then have "Suc (i * 2) \<noteq> 1" by simp
      then have "e ! (Suc (i * 2)) = concat (map (\<lambda>p. [f p, g p]) ps) ! (Suc (i * 2))"
        unfolding e_def by (rule nth_list_update_neq [OF not_sym])
      also from i have "\<dots> = g (ps ! i)"
        by (simp add: nth_concat_pairs)
      also from Suc i have "\<dots> = (w # map g (tl ps)) ! i"
        by (simp add: nth_tl)
      finally have "e ! (Suc (i * 2)) = (w # map g (tl ps)) ! i" .
      with i show ?thesis by simp
    qed
  qed
  from a b show ?thesis by simp
qed

lemma term_shape_tuple: "is_tuple k t \<Longrightarrow> term_shape t = [k]"
  by (cases t) simp_all

lemma shapes_of_tuples: "list_all (is_tuple k) ts \<Longrightarrow> map term_shape ts = map (\<lambda>t. [k]) ts"
  by (induction ts) (simp_all add: term_shape_tuple)

lemma to_nd_tuples:
  assumes "list_all term_fits ts" and "list_all (is_tuple k) ts" and "ts \<noteq> []"
  shows "to_nd st (term_seq ts) = Inr ([length ts, k], concat (map term_values ts))"
proof -
  from assms obtain t ts' where ts: "ts = t # ts'" and t: "is_tuple k t"
    by (cases ts) auto
  have "all_equal (map term_shape ts)"
    by (simp add: shapes_of_tuples [OF assms(2)] all_equal_replicate)
  with ts t assms(1) show ?thesis
    by (simp add: to_nd_term_seq term_shape_tuple del: all_equal.simps)
qed

lemma asarray_term_seq:
  "asarray (term_seq ts) s =
     (case to_nd (arrays s) (term_seq ts) of
        Inl e \<Rightarrow> (Inl e, s)
      | Inr (sh, es) \<Rightarrow>
          (Inr (length (arrays s)),
           s\<lparr>arrays := arrays s @ [\<lparr>typecode = TC_d, shape = sh, elems = es\<rparr>]\<rparr>))"
  by (simp add: asarray_def term_seq_def alloc_array_def split: sum.splits prod.splits)

lemma values_of_pairs:
  "concat (map term_values (pairs ps)) =
   concat (map (\<lambda>p. [double_of (fst p), double_of (snd p)]) ps)"
  by (simp add: pairs_def comp_def)

lemma pairs_are_tuples: "list_all (is_tuple 2) (pairs ps)"
  by (simp add: pairs_def list_all_iff)

lemma pairs_fit:
  "list_all term_fits (pairs ps) = list_all (\<lambda>p. fits (fst p) \<and> fits (snd p)) ps"
  by (simp add: pairs_def list_all_iff)


section \<open>What a step leaves alone\<close>

lemma asarray_frame:
  "asarray v s = (r, s') \<Longrightarrow>
   objs s' = objs s \<and> engine s' = engine s \<and> take (length (arrays s)) (arrays s') = arrays s"
  by (auto simp: asarray_def alloc_array_def split: pyval.splits if_splits sum.splits prod.splits)

lemma setitem_frame:
  "setitem a i j v s = (r, s') \<Longrightarrow>
   objs s' = objs s \<and> engine s' = engine s \<and> length (arrays s') = length (arrays s)"
  by (auto simp: setitem_def split: list.splits if_splits sum.splits)

lemma Func1_init_Inl:
  "Func1_init self typ n c s = (Inl e, s') \<Longrightarrow> engine s' = engine s"
  by (auto simp: Func1_init_def on_ok_def upd_obj_def func_new_def
      split: sum.splits prod.splits dest!: asarray_frame)

lemma Func1_init_Inr:
  "Func1_init self typ n c s = (Inr u, s') \<Longrightarrow> \<exists>cs. engine s' = engine s @ [FuncNew typ n cs]"
  by (auto simp: Func1_init_def on_ok_def upd_obj_def func_new_def
      split: sum.splits prod.splits dest!: asarray_frame)

section \<open>Fourier series\<close>

lemma Fourier_Inl:
  "Fourier omega c s = (Inl e, s') \<Longrightarrow> engine s' = engine s"
  by (auto simp: Fourier_def on_ok_def alloc_obj_def transpose_array_def ravel_def alloc_array_def
      split: sum.splits prod.splits if_splits
      dest!: asarray_frame setitem_frame Func1_init_Inl)

lemma Fourier_Inr:
  "Fourier omega c s = (Inr v, s') \<Longrightarrow> \<exists>n cs. engine s' = engine s @ [FuncNew 1 n cs]"
  by (auto simp: Fourier_def on_ok_def alloc_obj_def transpose_array_def ravel_def alloc_array_def
      split: sum.splits prod.splits if_splits
      dest!: asarray_frame setitem_frame Func1_init_Inr)



lemma Fourier_tuples:
  assumes ts: "list_all term_fits ts" "list_all (is_tuple 2) ts" "ts \<noteq> []"
    and om: "fits om"
    and B: "B = \<lparr>typecode = TC_d, shape = [length ts, 2],
                 elems = (concat (map term_values ts))[1 := double_of om]\<rparr>"
  shows "Fourier (of_number om) (term_seq ts) s =
     (Inr (PyFunc (length (objs s))),
      \<lparr>arrays = arrays s @ [B, transposed B, ravelled (transposed B)],
       objs = objs s @
         [\<lparr>obj_cls = ClsFourier, attr_n = Some (int (length ts) - 1),
           attr_coeffs = Some (Suc (Suc (length (arrays s)))),
           attr_func_id = Some (length (engine s)),
           attr_f1 = None, attr_f2 = None\<rparr>],
       engine = engine s @ [FuncNew 1 (int (length ts) - 1) (elems (transposed B))]\<rparr>)"
proof -
  let ?s1 = "snd (alloc_obj ClsFourier s)"
  let ?A = "arrays s @ [\<lparr>typecode = TC_d, shape = [length ts, 2],
                          elems = concat (map term_values ts)\<rparr>]"
  have conv: "asarray (term_seq ts) ?s1 = (Inr (length (arrays s)), ?s1\<lparr>arrays := ?A\<rparr>)"
    by (simp add: asarray_term_seq to_nd_tuples [OF ts] alloc_obj_def)
  from ts(3) have n: "0 < length ts" by simp
  have "Fourier (of_number om) (term_seq ts) s =
     (Inr (PyFunc (length (objs s))),
      \<lparr>arrays = ?A[length (arrays s) := B] @ [transposed B, ravelled (transposed B)],
       objs = objs s @
         [\<lparr>obj_cls = ClsFourier, attr_n = Some (int (length ts) - 1),
           attr_coeffs = Some (Suc (length ?A)), attr_func_id = Some (length (engine s)),
           attr_f1 = None, attr_f2 = None\<rparr>],
       engine = engine s @ [FuncNew 1 (int (length ts) - 1) (elems (transposed B))]\<rparr>)"
    by (rule Fourier_body [OF conv _ _ _ n om]) (simp_all add: B)
  then show ?thesis by simp
qed

text \<open>
  C3.  For every Fourier construction from a number \<open>om\<close> and a nonempty sequence of
  pairs of numbers \<open>(a\<^sub>0, b\<^sub>0), \<dots>, (a\<^sub>n, b\<^sub>n)\<close>, all of which convert to doubles, the
  construction returns the new instance and the coefficient sequence registered with
  the engine is \<open>a\<^sub>0, \<dots>, a\<^sub>n, om, b\<^sub>1, \<dots>, b\<^sub>n\<close> as doubles: the transposed array flattened,
  with the second element of the first pair replaced by \<open>om\<close>.  The call carries the
  kind 1 and the number of pairs less one.
\<close>

theorem Fourier_registers_layout:
  assumes "ps \<noteq> []"
    and "list_all (\<lambda>p. fits (fst p) \<and> fits (snd p)) ps"
    and "fits om"
  shows "fst (Fourier (of_number om) (term_seq (pairs ps)) s) = Inr (PyFunc (length (objs s))) \<and>
         engine (snd (Fourier (of_number om) (term_seq (pairs ps)) s)) =
           engine s @
             [FuncNew 1 (int (length ps) - 1)
                (map (\<lambda>p. double_of (fst p)) ps @ double_of om #
                 map (\<lambda>p. double_of (snd p)) (tl ps))]"
proof -
  define B where "B = \<lparr>typecode = TC_d, shape = [length (pairs ps), 2],
                 elems = (concat (map term_values (pairs ps)))[1 := double_of om]\<rparr>"
  from assms(1) have ne: "pairs ps \<noteq> []" by (simp add: pairs_def)
  from assms(2) have fit: "list_all term_fits (pairs ps)" by (simp add: pairs_fit)
  have len: "length (pairs ps) = length ps" by (simp add: pairs_def)
  have "elems (transposed B) =
          map (\<lambda>p. double_of (fst p)) ps @ double_of om # map (\<lambda>p. double_of (snd p)) (tl ps)"
    using columns_of_pairs [OF assms(1), of "\<lambda>p. double_of (fst p)" "\<lambda>p. double_of (snd p)"
        "double_of om"]
    by (simp add: B_def transposed_n2 values_of_pairs len)
  then show ?thesis
    by (simp add: Fourier_tuples [OF fit pairs_are_tuples ne assms(3) B_def] len)
qed

theorem Fourier_registers_layout_witness:
  "[(NFloat 10, NFloat 11), (NInt 20, NFloat 21), (NFloat 30, NFloat 31)] \<noteq> [] \<and>
   list_all (\<lambda>p. fits (fst p) \<and> fits (snd p))
     [(NFloat 10, NFloat 11), (NInt 20, NFloat 21), (NFloat 30, NFloat 31)] \<and>
   fits (NFloat 2) \<and>
   fst (Fourier (PyFloat 2)
          (PySeq [PySeq [PyFloat 10, PyFloat 11], PySeq [PyInt 20, PyFloat 21],
                  PySeq [PyFloat 30, PyFloat 31]])
          s_empty) = Inr (PyFunc 0) \<and>
   engine (snd (Fourier (PyFloat 2)
                  (PySeq [PySeq [PyFloat 10, PyFloat 11], PySeq [PyInt 20, PyFloat 21],
                          PySeq [PyFloat 30, PyFloat 31]])
                  s_empty)) =
     [FuncNew 1 2 [10, 20, 30, 2, 21, 31]]"
  using Fourier_registers_layout
    [of "[(NFloat 10, NFloat 11), (NInt 20, NFloat 21), (NFloat 30, NFloat 31)]" "NFloat 2"
        s_empty]
  by (simp add: s_empty_def term_seq_def pairs_def round_to_double_def)

lemma is_tuple_iff: "is_tuple k t \<longleftrightarrow> term_shape t = [k]"
  by (cases t) auto

lemma tuples_of_equal_shapes:
  "list_all (\<lambda>y. y = [k]) (map term_shape ts) \<Longrightarrow> list_all (is_tuple k) ts"
  by (induction ts) (simp_all add: is_tuple_iff)

lemma Fourier_not_tuples:
  assumes "\<not> list_all (is_tuple 2) ts"
  shows "isl (fst (Fourier omega (term_seq ts) s))"
proof (cases "list_all term_fits ts")
  case False
  then show ?thesis
    by (simp add: Fourier_def alloc_obj_def on_ok_def asarray_term_seq to_nd_term_seq)
next
  case fit: True
  show ?thesis
  proof (cases ts)
    case Nil
    with assms show ?thesis by simp
  next
    case (Cons t ts')
    show ?thesis
    proof (cases "all_equal (map term_shape ts)")
      case False
      with fit show ?thesis
        by (simp add: Fourier_def alloc_obj_def on_ok_def asarray_term_seq to_nd_term_seq
            del: all_equal.simps)
    next
      case True
      with Cons assms have "term_shape t \<noteq> [2]"
        by (auto simp: is_tuple_iff dest: tuples_of_equal_shapes)
      with True Cons fit show ?thesis
        by (cases t)
          (simp_all add: Fourier_def alloc_obj_def on_ok_def asarray_term_seq to_nd_term_seq
            unpack2_def)
    qed
  qed
qed

text \<open>
  C2 (as amended).  For every nonempty sequence of terms in which every term is a
  2-tuple of numbers that convert to doubles, and every such number \<open>om\<close>, the
  construction returns the new instance and makes one engine call.  For every sequence
  of terms containing a term that is not a 2-tuple, the construction raises and no
  engine call is made.
\<close>

theorem Fourier_construction:
  "(ts \<noteq> [] \<and> list_all (is_tuple 2) ts \<and> list_all term_fits ts \<and> fits om \<longrightarrow>
      fst (Fourier (of_number om) (term_seq ts) s) = Inr (PyFunc (length (objs s))) \<and>
      length (engine (snd (Fourier (of_number om) (term_seq ts) s))) = Suc (length (engine s))) \<and>
   (\<not> list_all (is_tuple 2) ts \<longrightarrow>
      isl (fst (Fourier omega (term_seq ts) s)) \<and>
      engine (snd (Fourier omega (term_seq ts) s)) = engine s)"
proof (intro conjI impI)
  assume a: "ts \<noteq> [] \<and> list_all (is_tuple 2) ts \<and> list_all term_fits ts \<and> fits om"
  then have ts: "list_all term_fits ts" "list_all (is_tuple 2) ts" "ts \<noteq> []" and om: "fits om"
    by simp_all
  show "fst (Fourier (of_number om) (term_seq ts) s) = Inr (PyFunc (length (objs s)))"
    by (simp add: Fourier_tuples [OF ts om refl])
  show "length (engine (snd (Fourier (of_number om) (term_seq ts) s))) = Suc (length (engine s))"
    by (simp add: Fourier_tuples [OF ts om refl])
next
  assume a: "\<not> list_all (is_tuple 2) ts"
  show "isl (fst (Fourier omega (term_seq ts) s))"
    by (rule Fourier_not_tuples [OF a])
  then obtain e where "fst (Fourier omega (term_seq ts) s) = Inl e"
    by (cases "fst (Fourier omega (term_seq ts) s)") simp_all
  then have "Fourier omega (term_seq ts) s = (Inl e, snd (Fourier omega (term_seq ts) s))"
    by (simp add: prod_eq_iff)
  then show "engine (snd (Fourier omega (term_seq ts) s)) = engine s"
    by (rule Fourier_Inl)
qed

theorem Fourier_construction_witness:
  "fst (Fourier (PyInt 2) (PySeq [PySeq [PyFloat 10, PyFloat 11], PySeq [PyInt 20, PyFloat 21]])
         s_empty) = Inr (PyFunc 0) \<and>
   length (engine (snd (Fourier (PyInt 2)
       (PySeq [PySeq [PyFloat 10, PyFloat 11], PySeq [PyInt 20, PyFloat 21]]) s_empty))) = 1 \<and>
   isl (fst (Fourier (PyFloat 2) (PySeq [PySeq [PyFloat 1, PyFloat 2], PySeq [PyFloat 3]]) s_empty)) \<and>
   engine (snd (Fourier (PyFloat 2) (PySeq [PySeq [PyFloat 1, PyFloat 2], PySeq [PyFloat 3]])
                  s_empty)) = []"
  using Fourier_construction
      [of "[Tuple [NFloat 10, NFloat 11], Tuple [NInt 20, NFloat 21]]" "NInt 2" s_empty
          "PyFloat 2"]
    Fourier_construction
      [of "[Tuple [NFloat 1, NFloat 2], Tuple [NFloat 3]]" "NInt 2" s_empty "PyFloat 2"]
  by (simp add: s_empty_def term_seq_def round_to_double_def)

text \<open>
  The claim as stated fails at these inputs.  \<^verbatim>\<open>Fourier(2.0, [])\<close>: every term of the empty
  sequence is a 2-tuple, but its array has the shape \<open>(0,)\<close>, which cannot be unpacked
  into \<^verbatim>\<open>n, m\<close>.  \<^verbatim>\<open>Fourier(2.0, [(2**1024, 1.0)])\<close>: the one term is a 2-tuple, but its
  first number is beyond the range of a double.  \<^verbatim>\<open>Fourier(2.0, [1.0, 2.0])\<close>: the terms
  are not 2-tuples, and the construction raises \<^verbatim>\<open>ValueError\<close> at the unpacking, before
  the shape check.  \<^verbatim>\<open>Fourier(2.0, [(1.0, 2.0, 3.0)])\<close>: the shape check is reached, and
  its \<^verbatim>\<open>raise\<close> statement raises \<^verbatim>\<open>NameError\<close> for the unbound name.
\<close>

theorem Fourier_construction_counterexample:
  "list_all (is_tuple 2) [] \<and>
   fst (Fourier (PyFloat 2) (PySeq []) s_empty) = Inl ValueError \<and>
   list_all (is_tuple 2) [Tuple [NInt (2 ^ 1024), NFloat 1]] \<and>
   fst (Fourier (PyFloat 2) (PySeq [PySeq [PyInt (2 ^ 1024), PyFloat 1]]) s_empty) =
     Inl OverflowError \<and>
   fst (Fourier (PyFloat 2) (PySeq [PyFloat 1, PyFloat 2]) s_empty) = Inl ValueError \<and>
   fst (Fourier (PyFloat 2) (PySeq [PySeq [PyFloat 1, PyFloat 2, PyFloat 3]]) s_empty) =
     Inl (NameError ''CanteraError'')"
  by (simp add: Fourier_def alloc_obj_def on_ok_def asarray_def alloc_array_def unpack2_def
      s_empty_def int_to_double_def raise_unbound_def)


section \<open>Sums of Arrhenius terms\<close>

lemma Arrhenius_Inl:
  "Arrhenius c s = (Inl e, s') \<Longrightarrow> engine s' = engine s"
  by (auto simp: Arrhenius_def on_ok_def alloc_obj_def ravel_def alloc_array_def
      split: sum.splits prod.splits if_splits
      dest!: asarray_frame Func1_init_Inl)

lemma Arrhenius_Inr:
  "Arrhenius c s = (Inr v, s') \<Longrightarrow> \<exists>n cs. engine s' = engine s @ [FuncNew 3 n cs]"
  by (auto simp: Arrhenius_def on_ok_def alloc_obj_def ravel_def alloc_array_def
      split: sum.splits prod.splits if_splits
      dest!: asarray_frame Func1_init_Inr)

lemma Arrhenius_body:
  assumes conv: "asarray c (snd (alloc_obj ClsArrhenius s)) =
                   (Inr cc, (snd (alloc_obj ClsArrhenius s))\<lparr>arrays := A\<rparr>)"
    and cc: "cc < length A" and sh: "shape (A ! cc) = [n, 3]"
    and tc: "typecode (A ! cc) = TC_d"
  shows "Arrhenius c s =
     (Inr (PyFunc (length (objs s))),
      \<lparr>arrays = A @ [ravelled (A ! cc)],
       objs = objs s @
         [\<lparr>obj_cls = ClsArrhenius, attr_n = Some (int n),
           attr_coeffs = Some (length A), attr_func_id = Some (length (engine s)),
           attr_f1 = None, attr_f2 = None\<rparr>],
       engine = engine s @ [FuncNew 3 (int n) (elems (A ! cc))]\<rparr>)"
  using conv cc sh tc
  by (simp add: Arrhenius_def alloc_obj_def on_ok_def unpack2_def ravel_def alloc_array_def
      Func1_init_def upd_obj_def asarray_def func_new_def nth_append ravelled_def)

lemma Arrhenius_tuples:
  assumes ts: "list_all term_fits ts" "list_all (is_tuple 3) ts" "ts \<noteq> []"
    and C: "C = \<lparr>typecode = TC_d, shape = [length ts, 3], elems = concat (map term_values ts)\<rparr>"
  shows "Arrhenius (term_seq ts) s =
     (Inr (PyFunc (length (objs s))),
      \<lparr>arrays = arrays s @ [C, ravelled C],
       objs = objs s @
         [\<lparr>obj_cls = ClsArrhenius, attr_n = Some (int (length ts)),
           attr_coeffs = Some (Suc (length (arrays s))),
           attr_func_id = Some (length (engine s)),
           attr_f1 = None, attr_f2 = None\<rparr>],
       engine = engine s @ [FuncNew 3 (int (length ts)) (concat (map term_values ts))]\<rparr>)"
proof -
  let ?s1 = "snd (alloc_obj ClsArrhenius s)"
  let ?A = "arrays s @ [C]"
  have conv: "asarray (term_seq ts) ?s1 = (Inr (length (arrays s)), ?s1\<lparr>arrays := ?A\<rparr>)"
    by (simp add: asarray_term_seq to_nd_tuples [OF ts] alloc_obj_def C)
  have "Arrhenius (term_seq ts) s =
     (Inr (PyFunc (length (objs s))),
      \<lparr>arrays = ?A @ [ravelled (?A ! length (arrays s))],
       objs = objs s @
         [\<lparr>obj_cls = ClsArrhenius, attr_n = Some (int (length ts)),
           attr_coeffs = Some (length ?A), attr_func_id = Some (length (engine s)),
           attr_f1 = None, attr_f2 = None\<rparr>],
       engine = engine s @ [FuncNew 3 (int (length ts)) (elems (?A ! length (arrays s)))]\<rparr>)"
    by (rule Arrhenius_body [OF conv]) (simp_all add: C)
  then show ?thesis by (simp add: C)
qed

lemma Arrhenius_not_tuples:
  assumes "\<not> list_all (is_tuple 3) ts"
  shows "isl (fst (Arrhenius (term_seq ts) s))"
proof (cases "list_all term_fits ts")
  case False
  then show ?thesis
    by (simp add: Arrhenius_def alloc_obj_def on_ok_def asarray_term_seq to_nd_term_seq)
next
  case fit: True
  show ?thesis
  proof (cases ts)
    case Nil
    with assms show ?thesis by simp
  next
    case (Cons t ts')
    show ?thesis
    proof (cases "all_equal (map term_shape ts)")
      case False
      with fit show ?thesis
        by (simp add: Arrhenius_def alloc_obj_def on_ok_def asarray_term_seq to_nd_term_seq
            del: all_equal.simps)
    next
      case True
      with Cons assms have "term_shape t \<noteq> [3]"
        by (auto simp: is_tuple_iff dest: tuples_of_equal_shapes)
      with True Cons fit show ?thesis
        by (cases t)
          (simp_all add: Arrhenius_def alloc_obj_def on_ok_def asarray_term_seq to_nd_term_seq
            unpack2_def)
    qed
  qed
qed

lemma values_of_triples:
  "concat (map term_values (triples ps)) =
   concat (map (\<lambda>p. [double_of (fst p), double_of (fst (snd p)), double_of (snd (snd p))]) ps)"
  by (simp add: triples_def comp_def)

lemma triples_are_tuples: "list_all (is_tuple 3) (triples ps)"
  by (simp add: triples_def list_all_iff)

lemma triples_fit:
  "list_all term_fits (triples ps) =
   list_all (\<lambda>p. fits (fst p) \<and> fits (fst (snd p)) \<and> fits (snd (snd p))) ps"
  by (simp add: triples_def list_all_iff)

text \<open>
  C6 (as amended).  For every nonempty sequence of triples \<open>(A, b, E)\<close> of numbers that
  convert to doubles, the construction returns the new instance and registers with the
  engine the kind 3, the number of triples and the coefficients in row-major order
  \<open>A\<^sub>0, b\<^sub>0, E\<^sub>0, A\<^sub>1, b\<^sub>1, E\<^sub>1, \<dots>\<close>.  For every sequence of terms containing a term that is
  not a 3-tuple, the construction raises and no engine call is made.
\<close>

theorem Arrhenius_construction:
  "(ps \<noteq> [] \<and> list_all (\<lambda>p. fits (fst p) \<and> fits (fst (snd p)) \<and> fits (snd (snd p))) ps \<longrightarrow>
      fst (Arrhenius (term_seq (triples ps)) s) = Inr (PyFunc (length (objs s))) \<and>
      engine (snd (Arrhenius (term_seq (triples ps)) s)) =
        engine s @
          [FuncNew 3 (int (length ps))
             (concat (map (\<lambda>p. [double_of (fst p), double_of (fst (snd p)),
                                  double_of (snd (snd p))]) ps))]) \<and>
   (\<not> list_all (is_tuple 3) ts \<longrightarrow>
      isl (fst (Arrhenius (term_seq ts) s)) \<and>
      engine (snd (Arrhenius (term_seq ts) s)) = engine s)"
proof (intro conjI impI)
  assume a: "ps \<noteq> [] \<and>
    list_all (\<lambda>p. fits (fst p) \<and> fits (fst (snd p)) \<and> fits (snd (snd p))) ps"
  then have ne: "triples ps \<noteq> []" by (simp add: triples_def)
  from a have fit: "list_all term_fits (triples ps)" by (simp add: triples_fit)
  have len: "length (triples ps) = length ps" by (simp add: triples_def)
  note r = Arrhenius_tuples [OF fit triples_are_tuples ne refl, of s]
  show "fst (Arrhenius (term_seq (triples ps)) s) = Inr (PyFunc (length (objs s)))"
    by (simp add: r)
  show "engine (snd (Arrhenius (term_seq (triples ps)) s)) =
        engine s @
          [FuncNew 3 (int (length ps))
             (concat (map (\<lambda>p. [double_of (fst p), double_of (fst (snd p)),
                                  double_of (snd (snd p))]) ps))]"
    by (simp add: r len values_of_triples)
next
  assume a: "\<not> list_all (is_tuple 3) ts"
  show "isl (fst (Arrhenius (term_seq ts) s))"
    by (rule Arrhenius_not_tuples [OF a])
  then obtain e where "fst (Arrhenius (term_seq ts) s) = Inl e"
    by (cases "fst (Arrhenius (term_seq ts) s)") simp_all
  then have "Arrhenius (term_seq ts) s = (Inl e, snd (Arrhenius (term_seq ts) s))"
    by (simp add: prod_eq_iff)
  then show "engine (snd (Arrhenius (term_seq ts) s)) = engine s"
    by (rule Arrhenius_Inl)
qed

theorem Arrhenius_construction_witness:
  "fst (Arrhenius (PySeq [PySeq [PyFloat 1, PyFloat 2, PyFloat 3], PySeq [PyInt 4, PyFloat 5, PyFloat 6]])
         s_empty) = Inr (PyFunc 0) \<and>
   engine (snd (Arrhenius
       (PySeq [PySeq [PyFloat 1, PyFloat 2, PyFloat 3], PySeq [PyInt 4, PyFloat 5, PyFloat 6]])
       s_empty)) = [FuncNew 3 2 [1, 2, 3, 4, 5, 6]] \<and>
   isl (fst (Arrhenius (PySeq [PySeq [PyFloat 1, PyFloat 2, PyFloat 3], PySeq [PyFloat 4]]) s_empty)) \<and>
   engine (snd (Arrhenius (PySeq [PySeq [PyFloat 1, PyFloat 2, PyFloat 3], PySeq [PyFloat 4]])
                  s_empty)) = []"
  using Arrhenius_construction
      [of "[(NFloat 1, NFloat 2, NFloat 3), (NInt 4, NFloat 5, NFloat 6)]" s_empty
          "[Tuple [NFloat 1, NFloat 2, NFloat 3], Tuple [NFloat 4]]"]
  by (simp add: s_empty_def term_seq_def triples_def round_to_double_def)

text \<open>
  The claim as stated fails at these inputs.  \<^verbatim>\<open>Arrhenius([])\<close>: every term of the empty
  sequence is a 3-tuple, but its array has the shape \<open>(0,)\<close>, which cannot be unpacked
  into \<^verbatim>\<open>n, m\<close>.  \<^verbatim>\<open>Arrhenius([(2**1024, 1.0, 1.0)])\<close>: the one term is a 3-tuple, but
  its first number is beyond the range of a double.  \<^verbatim>\<open>Arrhenius([1.0, 2.0])\<close>: the
  terms are not 3-tuples, and the construction raises \<^verbatim>\<open>ValueError\<close> at the unpacking,
  before the shape check.  \<^verbatim>\<open>Arrhenius([(1.0, 2.0)])\<close>: the shape check is reached, and
  its \<^verbatim>\<open>raise\<close> statement raises \<^verbatim>\<open>NameError\<close> for the unbound name.
\<close>

theorem Arrhenius_construction_counterexample:
  "list_all (is_tuple 3) [] \<and>
   fst (Arrhenius (PySeq []) s_empty) = Inl ValueError \<and>
   list_all (is_tuple 3) [Tuple [NInt (2 ^ 1024), NFloat 1, NFloat 1]] \<and>
   fst (Arrhenius (PySeq [PySeq [PyInt (2 ^ 1024), PyFloat 1, PyFloat 1]]) s_empty) =
     Inl OverflowError \<and>
   fst (Arrhenius (PySeq [PyFloat 1, PyFloat 2]) s_empty) = Inl ValueError \<and>
   fst (Arrhenius (PySeq [PySeq [PyFloat 1, PyFloat 2]]) s_empty) =
     Inl (NameError ''CanteraError'')"
  by (simp add: Arrhenius_def alloc_obj_def on_ok_def asarray_def alloc_array_def unpack2_def
      s_empty_def int_to_double_def raise_unbound_def)


section \<open>Polynomials and combinations\<close>

lemma Polynomial_numbers:
  "list_all fits cs \<Longrightarrow>
   Polynomial (PySeq (map of_number cs)) s =
     (Inr (PyFunc (length (objs s))),
      \<lparr>arrays = arrays s @ [\<lparr>typecode = TC_d, shape = [length cs], elems = map double_of cs\<rparr>],
       objs = objs s @
         [\<lparr>obj_cls = ClsPolynomial, attr_n = Some (int (length cs) - 1),
           attr_coeffs = Some (length (arrays s)), attr_func_id = Some (length (engine s)),
           attr_f1 = None, attr_f2 = None\<rparr>],
       engine = engine s @ [FuncNew 2 (int (length cs) - 1) (map double_of cs)]\<rparr>)"
  by (simp add: Polynomial_def alloc_obj_def len_def on_ok_def Func1_init_def upd_obj_def
      asarray_def to_nd_numbers alloc_array_def func_new_def del: to_nd.simps)

lemma Polynomial_Inl:
  "Polynomial c s = (Inl e, s') \<Longrightarrow> engine s' = engine s"
  by (auto simp: Polynomial_def on_ok_def alloc_obj_def
      split: sum.splits prod.splits if_splits dest!: Func1_init_Inl)

lemma Polynomial_Inr:
  "Polynomial c s = (Inr v, s') \<Longrightarrow> \<exists>n cs. engine s' = engine s @ [FuncNew 2 n cs]"
  by (auto simp: Polynomial_def on_ok_def alloc_obj_def
      split: sum.splits prod.splits if_splits dest!: Func1_init_Inr)

lemma Polynomial_returns:
  assumes "Polynomial (PySeq vs) s = (Inr v, s')"
  shows "v = PyFunc (length (objs s)) \<and>
         attr_n (objs s' ! length (objs s)) = Some (int (length vs) - 1) \<and>
         (\<exists>c. engine s' = engine s @ [FuncNew 2 (int (length vs) - 1) c])"
  using assms
  by (auto simp: Polynomial_def len_def on_ok_def alloc_obj_def Func1_init_def upd_obj_def
      func_new_def
      split: sum.splits prod.splits dest!: asarray_frame)

lemma combo_init_Inl:
  "combo_init c code f1 f2 s = (Inl e, s') \<Longrightarrow> engine s' = engine s"
  by (auto simp: combo_init_def alloc_obj_def upd_obj_def func_newcombo_def Let_def
      split: sum.splits prod.splits)

lemma combo_init_Inr:
  "combo_init c code f1 f2 s = (Inr v, s') \<Longrightarrow>
   \<exists>h1 h2. engine s' = engine s @ [FuncNewCombo code h1 h2]"
  by (auto simp: combo_init_def alloc_obj_def upd_obj_def func_newcombo_def Let_def
      split: sum.splits prod.splits)

lemma combo_init_unchanged:
  "unchanged s (snd (combo_init c code f1 f2 s))"
  by (auto simp: combo_init_def alloc_obj_def upd_obj_def func_newcombo_def Let_def unchanged_def
      split: sum.splits prod.splits)

lemma func_id_function:
  "a < length (objs s) \<Longrightarrow> attr_func_id (objs s ! a) = Some h \<Longrightarrow>
   func_id (PyFunc a) (s\<lparr>objs := objs s @ os\<rparr>) = Inr h"
  by (simp add: func_id_def nth_append)

lemma combo_init_functions:
  assumes f: "f < length (objs s)" "attr_func_id (objs s ! f) = Some hf"
    and g: "g < length (objs s)" "attr_func_id (objs s ! g) = Some hg"
  shows "combo_init c code (PyFunc f) (PyFunc g) s =
     (Inr (PyFunc (length (objs s))),
      \<lparr>arrays = arrays s,
       objs = objs s @
         [\<lparr>obj_cls = c, attr_n = Some (- 1), attr_coeffs = None,
           attr_func_id = Some (length (engine s)),
           attr_f1 = Some (PyFunc f), attr_f2 = Some (PyFunc g)\<rparr>],
       engine = engine s @ [FuncNewCombo code hf hg]\<rparr>)"
  using f g
  by (simp add: combo_init_def alloc_obj_def upd_obj_def func_newcombo_def Let_def
      func_id_function)


lemma s_F_eq:
  "s_F = \<lparr>arrays = [\<lparr>typecode = TC_d, shape = [1], elems = [1]\<rparr>],
          objs = [\<lparr>obj_cls = ClsPolynomial, attr_n = Some 0, attr_coeffs = Some 0,
                   attr_func_id = Some 0, attr_f1 = None, attr_f2 = None\<rparr>],
          engine = [FuncNew 2 0 [1]]\<rparr>"
  using Polynomial_numbers [of "[NFloat 1]" s_empty]
  by (simp add: s_F_def s_empty_def)

lemmas model_defs =
  Polynomial_def Fourier_def Arrhenius_def Const_def combo_init_def SumFunction_def
  ProdFunction_def RatioFunction_def Func1_init_def Func1_add_def Func1_radd_def Func1_mul_def
  Func1_rmul_def Func1_div_def Func1_rdiv_def is_FloatType_def func_id_def alloc_obj_def
  upd_obj_def on_ok_def asarray_def alloc_array_def unpack2_def as_double_def setitem_def
  transposed_def ravelled_def transpose_array_def ravel_def len_def func_new_def
  func_newcombo_def int_to_double_def round_to_double_def raise_unbound_def

text \<open>
  C7.  For every coefficient sequence of length \<open>L \<ge> 1\<close> of numbers that convert to
  doubles, the construction of the polynomial returns the new instance, its attribute
  \<^verbatim>\<open>n\<close> is \<open>L - 1\<close>, and the engine receives the kind 2, the arity \<open>L - 1\<close> and the
  coefficients as doubles; a sequence of length 1 gives the arity 0.  For every sequence
  of length \<open>L \<ge> 1\<close> of any values, a construction that returns has given the instance
  and the engine the arity \<open>L - 1\<close>.
\<close>

theorem Polynomial_arity:
  "(1 \<le> length cs \<and> list_all fits cs \<longrightarrow>
      fst (Polynomial (PySeq (map of_number cs)) s) = Inr (PyFunc (length (objs s))) \<and>
      attr_n (objs (snd (Polynomial (PySeq (map of_number cs)) s)) ! length (objs s)) =
        Some (int (length cs) - 1) \<and>
      engine (snd (Polynomial (PySeq (map of_number cs)) s)) =
        engine s @ [FuncNew 2 (int (length cs) - 1) (map double_of cs)]) \<and>
   (1 \<le> length vs \<and> \<not> isl (fst (Polynomial (PySeq vs) s)) \<longrightarrow>
      fst (Polynomial (PySeq vs) s) = Inr (PyFunc (length (objs s))) \<and>
      attr_n (objs (snd (Polynomial (PySeq vs) s)) ! length (objs s)) =
        Some (int (length vs) - 1) \<and>
      (\<exists>c. engine (snd (Polynomial (PySeq vs) s)) =
             engine s @ [FuncNew 2 (int (length vs) - 1) c]))"
proof (intro conjI impI)
  assume a: "1 \<le> length cs \<and> list_all fits cs"
  then have fit: "list_all fits cs" by simp
  show "fst (Polynomial (PySeq (map of_number cs)) s) = Inr (PyFunc (length (objs s)))"
    by (simp add: Polynomial_numbers [OF fit])
  show "attr_n (objs (snd (Polynomial (PySeq (map of_number cs)) s)) ! length (objs s)) =
        Some (int (length cs) - 1)"
    by (simp add: Polynomial_numbers [OF fit])
  show "engine (snd (Polynomial (PySeq (map of_number cs)) s)) =
        engine s @ [FuncNew 2 (int (length cs) - 1) (map double_of cs)]"
    by (simp add: Polynomial_numbers [OF fit])
next
  assume a: "1 \<le> length vs \<and> \<not> isl (fst (Polynomial (PySeq vs) s))"
  then obtain v where r: "Polynomial (PySeq vs) s = (Inr v, snd (Polynomial (PySeq vs) s))"
    by (cases "Polynomial (PySeq vs) s"; cases "fst (Polynomial (PySeq vs) s)") auto
  note p = Polynomial_returns [OF r]
  from p r show "fst (Polynomial (PySeq vs) s) = Inr (PyFunc (length (objs s)))"
    by (metis fst_conv)
  from p show "attr_n (objs (snd (Polynomial (PySeq vs) s)) ! length (objs s)) =
        Some (int (length vs) - 1)"
    by simp
  from p show "\<exists>c. engine (snd (Polynomial (PySeq vs) s)) =
             engine s @ [FuncNew 2 (int (length vs) - 1) c]"
    by simp
qed

theorem Polynomial_arity_witness:
  "1 \<le> length [NFloat 6] \<and> list_all fits [NFloat 6] \<and>
   fst (Polynomial (PySeq [PyFloat 6]) s_empty) = Inr (PyFunc 0) \<and>
   attr_n (objs (snd (Polynomial (PySeq [PyFloat 6]) s_empty)) ! 0) = Some 0 \<and>
   engine (snd (Polynomial (PySeq [PyFloat 6]) s_empty)) = [FuncNew 2 0 [6]] \<and>
   1 \<le> length [NFloat 1, NFloat (- 2), NInt 3] \<and>
   list_all fits [NFloat 1, NFloat (- 2), NInt 3] \<and>
   fst (Polynomial (PySeq [PyFloat 1, PyFloat (- 2), PyInt 3]) s_empty) = Inr (PyFunc 0) \<and>
   attr_n (objs (snd (Polynomial (PySeq [PyFloat 1, PyFloat (- 2), PyInt 3]) s_empty)) ! 0) =
     Some 2 \<and>
   engine (snd (Polynomial (PySeq [PyFloat 1, PyFloat (- 2), PyInt 3]) s_empty)) =
     [FuncNew 2 2 [1, - 2, 3]] \<and>
   \<not> isl (fst (Polynomial (PySeq [PyFloat 6, PyFloat 8]) s_empty)) \<and>
   attr_n (objs (snd (Polynomial (PySeq [PyFloat 6, PyFloat 8]) s_empty)) ! 0) = Some 1"
proof -
  have ok: "\<not> isl (fst (Polynomial (PySeq [PyFloat 6, PyFloat 8]) s_empty))"
    using Polynomial_numbers [of "[NFloat 6, NFloat 8]" s_empty] by simp
  from ok
    Polynomial_arity [of "[NFloat 6]" s_empty "[PyFloat 6, PyFloat 8]"]
    Polynomial_arity [of "[NFloat 1, NFloat (- 2), NInt 3]" s_empty "[PyFloat 6, PyFloat 8]"]
  show ?thesis
    by (simp add: s_empty_def round_to_double_def)
qed

lemma raisesE:
  fixes r :: "(error + pyval) \<times> state"
  assumes "isl (fst r)"
  obtains e where "r = (Inl e, snd r)"
  using assms by (cases r; cases "fst r") auto

lemma returnsE:
  fixes r :: "(error + pyval) \<times> state"
  assumes "\<not> isl (fst r)"
  obtains v where "r = (Inr v, snd r)"
  using assms by (cases r; cases "fst r") auto

text \<open>
  C8.  Every construction that returns has made exactly one engine call, with these
  codes: \<^verbatim>\<open>Polynomial\<close> 2, \<^verbatim>\<open>Fourier\<close> 1, \<^verbatim>\<open>Arrhenius\<close> 3, \<^verbatim>\<open>SumFunction\<close> 20,
  \<^verbatim>\<open>ProdFunction\<close> 30 and \<^verbatim>\<open>RatioFunction\<close> 40.  A construction that raises has made
  no engine call.
\<close>

theorem kind_codes:
  "(\<not> isl (fst (Polynomial c s)) \<longrightarrow>
      (\<exists>n cs. engine (snd (Polynomial c s)) = engine s @ [FuncNew 2 n cs])) \<and>
   (\<not> isl (fst (Fourier omega c2 s)) \<longrightarrow>
      (\<exists>n cs. engine (snd (Fourier omega c2 s)) = engine s @ [FuncNew 1 n cs])) \<and>
   (\<not> isl (fst (Arrhenius c3 s)) \<longrightarrow>
      (\<exists>n cs. engine (snd (Arrhenius c3 s)) = engine s @ [FuncNew 3 n cs])) \<and>
   (\<not> isl (fst (SumFunction f1 f2 s)) \<longrightarrow>
      (\<exists>h1 h2. engine (snd (SumFunction f1 f2 s)) = engine s @ [FuncNewCombo 20 h1 h2])) \<and>
   (\<not> isl (fst (ProdFunction f1 f2 s)) \<longrightarrow>
      (\<exists>h1 h2. engine (snd (ProdFunction f1 f2 s)) = engine s @ [FuncNewCombo 30 h1 h2])) \<and>
   (\<not> isl (fst (RatioFunction f1 f2 s)) \<longrightarrow>
      (\<exists>h1 h2. engine (snd (RatioFunction f1 f2 s)) = engine s @ [FuncNewCombo 40 h1 h2])) \<and>
   (isl (fst (Polynomial c s)) \<longrightarrow> engine (snd (Polynomial c s)) = engine s) \<and>
   (isl (fst (Fourier omega c2 s)) \<longrightarrow> engine (snd (Fourier omega c2 s)) = engine s) \<and>
   (isl (fst (Arrhenius c3 s)) \<longrightarrow> engine (snd (Arrhenius c3 s)) = engine s) \<and>
   (isl (fst (SumFunction f1 f2 s)) \<longrightarrow> engine (snd (SumFunction f1 f2 s)) = engine s) \<and>
   (isl (fst (ProdFunction f1 f2 s)) \<longrightarrow> engine (snd (ProdFunction f1 f2 s)) = engine s) \<and>
   (isl (fst (RatioFunction f1 f2 s)) \<longrightarrow> engine (snd (RatioFunction f1 f2 s)) = engine s)"
proof -
  have combo_ok: "\<exists>h1 h2. engine (snd (combo_init k code f1 f2 s)) =
                    engine s @ [FuncNewCombo code h1 h2]"
    if "\<not> isl (fst (combo_init k code f1 f2 s))" for k code
    using that by (elim returnsE) (rule combo_init_Inr)
  have combo_raises: "engine (snd (combo_init k code f1 f2 s)) = engine s"
    if "isl (fst (combo_init k code f1 f2 s))" for k code
    using that by (elim raisesE) (rule combo_init_Inl)
  show ?thesis
  proof (intro conjI impI)
    assume "\<not> isl (fst (Polynomial c s))"
    then show "\<exists>n cs. engine (snd (Polynomial c s)) = engine s @ [FuncNew 2 n cs]"
      by (elim returnsE) (rule Polynomial_Inr)
  next
    assume "\<not> isl (fst (Fourier omega c2 s))"
    then show "\<exists>n cs. engine (snd (Fourier omega c2 s)) = engine s @ [FuncNew 1 n cs]"
      by (elim returnsE) (rule Fourier_Inr)
  next
    assume "\<not> isl (fst (Arrhenius c3 s))"
    then show "\<exists>n cs. engine (snd (Arrhenius c3 s)) = engine s @ [FuncNew 3 n cs]"
      by (elim returnsE) (rule Arrhenius_Inr)
  next
    assume "\<not> isl (fst (SumFunction f1 f2 s))"
    then show "\<exists>h1 h2. engine (snd (SumFunction f1 f2 s)) = engine s @ [FuncNewCombo 20 h1 h2]"
      unfolding SumFunction_def by (rule combo_ok)
  next
    assume "\<not> isl (fst (ProdFunction f1 f2 s))"
    then show "\<exists>h1 h2. engine (snd (ProdFunction f1 f2 s)) = engine s @ [FuncNewCombo 30 h1 h2]"
      unfolding ProdFunction_def by (rule combo_ok)
  next
    assume "\<not> isl (fst (RatioFunction f1 f2 s))"
    then show "\<exists>h1 h2. engine (snd (RatioFunction f1 f2 s)) = engine s @ [FuncNewCombo 40 h1 h2]"
      unfolding RatioFunction_def by (rule combo_ok)
  next
    assume "isl (fst (Polynomial c s))"
    then show "engine (snd (Polynomial c s)) = engine s"
      by (elim raisesE) (rule Polynomial_Inl)
  next
    assume "isl (fst (Fourier omega c2 s))"
    then show "engine (snd (Fourier omega c2 s)) = engine s"
      by (elim raisesE) (rule Fourier_Inl)
  next
    assume "isl (fst (Arrhenius c3 s))"
    then show "engine (snd (Arrhenius c3 s)) = engine s"
      by (elim raisesE) (rule Arrhenius_Inl)
  next
    assume "isl (fst (SumFunction f1 f2 s))"
    then show "engine (snd (SumFunction f1 f2 s)) = engine s"
      unfolding SumFunction_def by (rule combo_raises)
  next
    assume "isl (fst (ProdFunction f1 f2 s))"
    then show "engine (snd (ProdFunction f1 f2 s)) = engine s"
      unfolding ProdFunction_def by (rule combo_raises)
  next
    assume "isl (fst (RatioFunction f1 f2 s))"
    then show "engine (snd (RatioFunction f1 f2 s)) = engine s"
      unfolding RatioFunction_def by (rule combo_raises)
  qed
qed

theorem kind_codes_witness:
  "\<not> isl (fst (Polynomial (PySeq [PyFloat 1]) s_F)) \<and>
   \<not> isl (fst (Fourier (PyFloat 2) (PySeq [PySeq [PyFloat 1, PyFloat 0]]) s_F)) \<and>
   \<not> isl (fst (Arrhenius (PySeq [PySeq [PyFloat 1, PyFloat 0, PyFloat 5]]) s_F)) \<and>
   \<not> isl (fst (SumFunction (PyFunc 0) (PyFunc 0) s_F)) \<and>
   \<not> isl (fst (ProdFunction (PyFunc 0) (PyFunc 0) s_F)) \<and>
   \<not> isl (fst (RatioFunction (PyFunc 0) (PyFunc 0) s_F)) \<and>
   (\<exists>n cs. engine (snd (Polynomial (PySeq [PyFloat 1]) s_F)) = engine s_F @ [FuncNew 2 n cs]) \<and>
   (\<exists>n cs. engine (snd (Fourier (PyFloat 2) (PySeq [PySeq [PyFloat 1, PyFloat 0]]) s_F)) =
      engine s_F @ [FuncNew 1 n cs]) \<and>
   (\<exists>n cs. engine (snd (Arrhenius (PySeq [PySeq [PyFloat 1, PyFloat 0, PyFloat 5]]) s_F)) =
      engine s_F @ [FuncNew 3 n cs]) \<and>
   (\<exists>h1 h2. engine (snd (SumFunction (PyFunc 0) (PyFunc 0) s_F)) =
      engine s_F @ [FuncNewCombo 20 h1 h2]) \<and>
   (\<exists>h1 h2. engine (snd (ProdFunction (PyFunc 0) (PyFunc 0) s_F)) =
      engine s_F @ [FuncNewCombo 30 h1 h2]) \<and>
   (\<exists>h1 h2. engine (snd (RatioFunction (PyFunc 0) (PyFunc 0) s_F)) =
      engine s_F @ [FuncNewCombo 40 h1 h2]) \<and>
   isl (fst (Polynomial (PyFloat 1) s_F)) \<and>
   isl (fst (Fourier (PyFloat 2) (PySeq []) s_F)) \<and>
   isl (fst (Arrhenius (PySeq []) s_F)) \<and>
   isl (fst (SumFunction (PyFunc 0) (PyFloat 2) s_F)) \<and>
   isl (fst (ProdFunction (PyFunc 0) (PyFloat 2) s_F)) \<and>
   isl (fst (RatioFunction (PyFunc 0) (PyFloat 2) s_F)) \<and>
   engine (snd (Polynomial (PyFloat 1) s_F)) = engine s_F \<and>
   engine (snd (Fourier (PyFloat 2) (PySeq []) s_F)) = engine s_F \<and>
   engine (snd (Arrhenius (PySeq []) s_F)) = engine s_F \<and>
   engine (snd (SumFunction (PyFunc 0) (PyFloat 2) s_F)) = engine s_F \<and>
   engine (snd (ProdFunction (PyFunc 0) (PyFloat 2) s_F)) = engine s_F \<and>
   engine (snd (RatioFunction (PyFunc 0) (PyFloat 2) s_F)) = engine s_F"
proof -
  have ok:
    "\<not> isl (fst (Polynomial (PySeq [PyFloat 1]) s_F))"
    "\<not> isl (fst (Fourier (PyFloat 2) (PySeq [PySeq [PyFloat 1, PyFloat 0]]) s_F))"
    "\<not> isl (fst (Arrhenius (PySeq [PySeq [PyFloat 1, PyFloat 0, PyFloat 5]]) s_F))"
    "\<not> isl (fst (SumFunction (PyFunc 0) (PyFunc 0) s_F))"
    "\<not> isl (fst (ProdFunction (PyFunc 0) (PyFunc 0) s_F))"
    "\<not> isl (fst (RatioFunction (PyFunc 0) (PyFunc 0) s_F))"
    by (simp_all add: s_F_eq model_defs)
  have raised:
    "isl (fst (Polynomial (PyFloat 1) s_F))"
    "isl (fst (Fourier (PyFloat 2) (PySeq []) s_F))"
    "isl (fst (Arrhenius (PySeq []) s_F))"
    "isl (fst (SumFunction (PyFunc 0) (PyFloat 2) s_F))"
    "isl (fst (ProdFunction (PyFunc 0) (PyFloat 2) s_F))"
    "isl (fst (RatioFunction (PyFunc 0) (PyFloat 2) s_F))"
    by (simp_all add: s_F_eq model_defs)
  note k1 = kind_codes [of "PySeq [PyFloat 1]" s_F "PyFloat 2"
      "PySeq [PySeq [PyFloat 1, PyFloat 0]]"
      "PySeq [PySeq [PyFloat 1, PyFloat 0, PyFloat 5]]" "PyFunc 0" "PyFunc 0"]
  note k2 = kind_codes [of "PyFloat 1" s_F "PyFloat 2" "PySeq []" "PySeq []" "PyFunc 0"
      "PyFloat 2"]
  have sent:
    "\<exists>n cs. engine (snd (Polynomial (PySeq [PyFloat 1]) s_F)) = engine s_F @ [FuncNew 2 n cs]"
    "\<exists>n cs. engine (snd (Fourier (PyFloat 2) (PySeq [PySeq [PyFloat 1, PyFloat 0]]) s_F)) =
      engine s_F @ [FuncNew 1 n cs]"
    "\<exists>n cs. engine (snd (Arrhenius (PySeq [PySeq [PyFloat 1, PyFloat 0, PyFloat 5]]) s_F)) =
      engine s_F @ [FuncNew 3 n cs]"
    "\<exists>h1 h2. engine (snd (SumFunction (PyFunc 0) (PyFunc 0) s_F)) =
      engine s_F @ [FuncNewCombo 20 h1 h2]"
    "\<exists>h1 h2. engine (snd (ProdFunction (PyFunc 0) (PyFunc 0) s_F)) =
      engine s_F @ [FuncNewCombo 30 h1 h2]"
    "\<exists>h1 h2. engine (snd (RatioFunction (PyFunc 0) (PyFunc 0) s_F)) =
      engine s_F @ [FuncNewCombo 40 h1 h2]"
    using k1 ok by (iprover, iprover, iprover, iprover, iprover, iprover)
  have unsent:
    "engine (snd (Polynomial (PyFloat 1) s_F)) = engine s_F"
    "engine (snd (Fourier (PyFloat 2) (PySeq []) s_F)) = engine s_F"
    "engine (snd (Arrhenius (PySeq []) s_F)) = engine s_F"
    "engine (snd (SumFunction (PyFunc 0) (PyFloat 2) s_F)) = engine s_F"
    "engine (snd (ProdFunction (PyFunc 0) (PyFloat 2) s_F)) = engine s_F"
    "engine (snd (RatioFunction (PyFunc 0) (PyFloat 2) s_F)) = engine s_F"
    using k2 raised by (iprover, iprover, iprover, iprover, iprover, iprover)
  from ok raised sent unsent show ?thesis
    by (intro conjI)
qed


section \<open>The operators\<close>

lemma is_functionE:
  assumes "is_function s a"
  obtains h where "a < length (objs s)" "attr_func_id (objs s ! a) = Some h" "handle_of s a = h"
  using assms by (auto simp: is_function_def handle_of_def)

lemma is_function_s_F: "is_function s_F 0"
  by (simp add: is_function_def s_F_eq)

lemma s_FG_eq:
  "s_FG = \<lparr>arrays = [\<lparr>typecode = TC_d, shape = [1], elems = [1]\<rparr>,
                     \<lparr>typecode = TC_d, shape = [2], elems = [6, 8]\<rparr>],
          objs = [\<lparr>obj_cls = ClsPolynomial, attr_n = Some 0, attr_coeffs = Some 0,
                   attr_func_id = Some 0, attr_f1 = None, attr_f2 = None\<rparr>,
                  \<lparr>obj_cls = ClsPolynomial, attr_n = Some 1, attr_coeffs = Some 1,
                   attr_func_id = Some 1, attr_f1 = None, attr_f2 = None\<rparr>],
          engine = [FuncNew 2 0 [1], FuncNew 2 1 [6, 8]]\<rparr>"
  using Polynomial_numbers [of "[NFloat 6, NFloat 8]" s_F]
  by (simp add: s_FG_def s_F_eq)

lemma is_function_s_FG: "is_function s_FG 0" "is_function s_FG 1"
  by (simp_all add: is_function_def s_FG_eq)

text \<open>
  C5.  For all functions \<open>F\<close> and \<open>G\<close>, \<^verbatim>\<open>Func1.__add__(F, G)\<close> and
  \<^verbatim>\<open>Func1.__radd__(G, F)\<close> (the call Python makes on \<open>G\<close> for \<^verbatim>\<open>F + G\<close>) give the same
  result: a new \<^verbatim>\<open>SumFunction\<close> whose children are \<open>F\<close> on the left and \<open>G\<close> on the right,
  registered with the code 20 and the handles of \<open>F\<close> and \<open>G\<close> in that order.  The
  arguments are in the order of the source, the receiver first: \<^verbatim>\<open>__radd__\<close> puts its
  receiver on the right, so that \<^verbatim>\<open>Func1.__radd__(F, G)\<close> has the children \<open>G\<close>, \<open>F\<close>.
\<close>

theorem add_radd_children:
  assumes "is_function s f" and "is_function s g"
  shows "Func1_radd g (PyFunc f) s = Func1_add f (PyFunc g) s \<and>
         fst (Func1_add f (PyFunc g) s) = Inr (PyFunc (length (objs s))) \<and>
         obj_cls (objs (snd (Func1_add f (PyFunc g) s)) ! length (objs s)) = ClsSumFunction \<and>
         attr_f1 (objs (snd (Func1_add f (PyFunc g) s)) ! length (objs s)) = Some (PyFunc f) \<and>
         attr_f2 (objs (snd (Func1_add f (PyFunc g) s)) ! length (objs s)) = Some (PyFunc g) \<and>
         engine (snd (Func1_add f (PyFunc g) s)) =
           engine s @ [FuncNewCombo 20 (handle_of s f) (handle_of s g)] \<and>
         attr_f1 (objs (snd (Func1_radd f (PyFunc g) s)) ! length (objs s)) = Some (PyFunc g) \<and>
         attr_f2 (objs (snd (Func1_radd f (PyFunc g) s)) ! length (objs s)) = Some (PyFunc f)"
proof -
  from assms(1) obtain hf where f: "f < length (objs s)" "attr_func_id (objs s ! f) = Some hf"
    "handle_of s f = hf" by (rule is_functionE)
  from assms(2) obtain hg where g: "g < length (objs s)" "attr_func_id (objs s ! g) = Some hg"
    "handle_of s g = hg" by (rule is_functionE)
  have add: "Func1_add f (PyFunc g) s = combo_init ClsSumFunction 20 (PyFunc f) (PyFunc g) s"
    by (simp add: Func1_add_def is_FloatType_def SumFunction_def)
  have radd: "Func1_radd g (PyFunc f) s = combo_init ClsSumFunction 20 (PyFunc f) (PyFunc g) s"
    by (simp add: Func1_radd_def is_FloatType_def SumFunction_def)
  have radd': "Func1_radd f (PyFunc g) s = combo_init ClsSumFunction 20 (PyFunc g) (PyFunc f) s"
    by (simp add: Func1_radd_def is_FloatType_def SumFunction_def)
  show ?thesis
    unfolding add radd radd'
    by (simp add: combo_init_functions [OF f(1,2) g(1,2)]
        combo_init_functions [OF g(1,2) f(1,2)] f(3) g(3))
qed

theorem add_radd_children_witness:
  "is_function s_FG 0 \<and> is_function s_FG 1 \<and>
   Func1_radd 1 (PyFunc 0) s_FG = Func1_add 0 (PyFunc 1) s_FG \<and>
   fst (Func1_add 0 (PyFunc 1) s_FG) = Inr (PyFunc 2) \<and>
   attr_f1 (objs (snd (Func1_add 0 (PyFunc 1) s_FG)) ! 2) = Some (PyFunc 0) \<and>
   attr_f2 (objs (snd (Func1_add 0 (PyFunc 1) s_FG)) ! 2) = Some (PyFunc 1) \<and>
   engine (snd (Func1_add 0 (PyFunc 1) s_FG)) = engine s_FG @ [FuncNewCombo 20 0 1] \<and>
   attr_f1 (objs (snd (Func1_radd 0 (PyFunc 1) s_FG)) ! 2) = Some (PyFunc 1) \<and>
   attr_f2 (objs (snd (Func1_radd 0 (PyFunc 1) s_FG)) ! 2) = Some (PyFunc 0)"
proof -
  have "length (objs s_FG) = 2" "handle_of s_FG 0 = 0" "handle_of s_FG 1 = 1"
    by (simp_all add: s_FG_eq handle_of_def)
  with add_radd_children [OF is_function_s_FG] is_function_s_FG
  show ?thesis by simp
qed

lemma unchanged_trans:
  assumes "unchanged s s1" and "unchanged s1 s2"
  shows "unchanged s s2"
proof -
  have step: "\<And>xs ys zs :: 'a list.
      take (length xs) ys = xs \<Longrightarrow> take (length ys) zs = ys \<Longrightarrow> take (length xs) zs = xs"
  proof -
    fix xs ys zs :: "'a list"
    assume a: "take (length xs) ys = xs" and b: "take (length ys) zs = ys"
    from a have "length (take (length xs) ys) = length xs" by simp
    then have "length xs \<le> length ys" by simp
    then have "take (length xs) zs = take (length xs) (take (length ys) zs)"
      by (simp add: min_def)
    with a b show "take (length xs) zs = xs" by simp
  qed
  from assms show ?thesis
    unfolding unchanged_def by (blast intro: step)
qed

lemma Polynomial_unchanged: "unchanged s (snd (Polynomial c s))"
  by (auto simp: unchanged_def Polynomial_def alloc_obj_def on_ok_def Func1_init_def upd_obj_def
      func_new_def
      split: sum.splits prod.splits dest!: asarray_frame)

lemma Func1_add_unchanged: "unchanged s (snd (Func1_add f other s))"
proof (cases "is_FloatType other")
  case False
  then show ?thesis
    by (simp add: Func1_add_def SumFunction_def combo_init_unchanged)
next
  case True
  show ?thesis
  proof (cases "Polynomial (PySeq [other]) s")
    case (Pair r s1)
    have u: "unchanged s s1"
      using Polynomial_unchanged [of s "PySeq [other]"] Pair by simp
    show ?thesis
    proof (cases r)
      case (Inl e)
      with True Pair u show ?thesis
        by (simp add: Func1_add_def Const_def on_ok_def)
    next
      case (Inr c)
      with True Pair have "snd (Func1_add f other s) =
          snd (combo_init ClsSumFunction 20 (PyFunc f) c s1)"
        by (simp add: Func1_add_def Const_def on_ok_def SumFunction_def)
      with u show ?thesis
        by (metis combo_init_unchanged unchanged_trans)
    qed
  qed
qed

lemma Func1_radd_unchanged: "unchanged s (snd (Func1_radd f other s))"
proof (cases "is_FloatType other")
  case False
  then show ?thesis
    by (simp add: Func1_radd_def SumFunction_def combo_init_unchanged)
next
  case True
  show ?thesis
  proof (cases "Polynomial (PySeq [other]) s")
    case (Pair r s1)
    have u: "unchanged s s1"
      using Polynomial_unchanged [of s "PySeq [other]"] Pair by simp
    show ?thesis
    proof (cases r)
      case (Inl e)
      with True Pair u show ?thesis
        by (simp add: Func1_radd_def Const_def on_ok_def)
    next
      case (Inr c)
      with True Pair have "snd (Func1_radd f other s) =
          snd (combo_init ClsSumFunction 20 c (PyFunc f) s1)"
        by (simp add: Func1_radd_def Const_def on_ok_def SumFunction_def)
      with u show ?thesis
        by (metis combo_init_unchanged unchanged_trans)
    qed
  qed
qed

lemma combo_init_new:
  assumes "is_function s f" and "is_function s g"
  shows "new_combinator c s (combo_init c code (PyFunc f) (PyFunc g) s)"
proof -
  from assms(1) obtain hf where f: "f < length (objs s)" "attr_func_id (objs s ! f) = Some hf"
    by (auto simp: is_function_def)
  from assms(2) obtain hg where g: "g < length (objs s)" "attr_func_id (objs s ! g) = Some hg"
    by (auto simp: is_function_def)
  show ?thesis
    by (simp add: combo_init_functions [OF f g] new_combinator_def)
qed

text \<open>
  C9.  Each of the six operators, whatever its other operand and whether it returns or
  raises, leaves every existing instance (class, \<^verbatim>\<open>n\<close>, coefficients, handle and
  children), every existing array and every engine registration as it was; applied to
  two functions it returns a new instance of the combining class, with a handle.
\<close>

theorem operators_leave_operands:
  "unchanged s (snd (Func1_add f other s)) \<and>
   unchanged s (snd (Func1_radd f other s)) \<and>
   unchanged s (snd (Func1_mul f other s)) \<and>
   unchanged s (snd (Func1_rmul f other s)) \<and>
   unchanged s (snd (Func1_div f other s)) \<and>
   unchanged s (snd (Func1_rdiv f other s)) \<and>
   (is_function s f \<and> is_function s g \<longrightarrow>
      new_combinator ClsSumFunction s (Func1_add f (PyFunc g) s) \<and>
      new_combinator ClsSumFunction s (Func1_radd f (PyFunc g) s) \<and>
      new_combinator ClsProdFunction s (Func1_mul f (PyFunc g) s) \<and>
      new_combinator ClsProdFunction s (Func1_rmul f (PyFunc g) s) \<and>
      new_combinator ClsRatioFunction s (Func1_div f (PyFunc g) s) \<and>
      new_combinator ClsRatioFunction s (Func1_rdiv f (PyFunc g) s))"
proof (intro conjI impI)
  show "unchanged s (snd (Func1_add f other s))" by (rule Func1_add_unchanged)
  show "unchanged s (snd (Func1_radd f other s))" by (rule Func1_radd_unchanged)
  show "unchanged s (snd (Func1_mul f other s))"
    by (simp add: Func1_mul_def ProdFunction_def combo_init_unchanged)
  show "unchanged s (snd (Func1_rmul f other s))"
    by (simp add: Func1_rmul_def ProdFunction_def combo_init_unchanged)
  show "unchanged s (snd (Func1_div f other s))"
    by (simp add: Func1_div_def RatioFunction_def combo_init_unchanged)
  show "unchanged s (snd (Func1_rdiv f other s))"
    by (simp add: Func1_rdiv_def RatioFunction_def combo_init_unchanged)
next
  assume a: "is_function s f \<and> is_function s g"
  then have f: "is_function s f" and g: "is_function s g" by simp_all
  show "new_combinator ClsSumFunction s (Func1_add f (PyFunc g) s)"
    by (simp add: Func1_add_def is_FloatType_def SumFunction_def combo_init_new [OF f g])
  show "new_combinator ClsSumFunction s (Func1_radd f (PyFunc g) s)"
    by (simp add: Func1_radd_def is_FloatType_def SumFunction_def combo_init_new [OF g f])
  show "new_combinator ClsProdFunction s (Func1_mul f (PyFunc g) s)"
    by (simp add: Func1_mul_def ProdFunction_def combo_init_new [OF f g])
  show "new_combinator ClsProdFunction s (Func1_rmul f (PyFunc g) s)"
    by (simp add: Func1_rmul_def ProdFunction_def combo_init_new [OF g f])
  show "new_combinator ClsRatioFunction s (Func1_div f (PyFunc g) s)"
    by (simp add: Func1_div_def RatioFunction_def combo_init_new [OF f g])
  show "new_combinator ClsRatioFunction s (Func1_rdiv f (PyFunc g) s)"
    by (simp add: Func1_rdiv_def RatioFunction_def combo_init_new [OF g f])
qed

theorem operators_leave_operands_witness:
  "is_function s_FG 0 \<and> is_function s_FG 1 \<and>
   unchanged s_FG (snd (Func1_add 0 (PyFunc 1) s_FG)) \<and>
   unchanged s_FG (snd (Func1_rdiv 0 (PyFunc 1) s_FG)) \<and>
   new_combinator ClsSumFunction s_FG (Func1_add 0 (PyFunc 1) s_FG) \<and>
   new_combinator ClsSumFunction s_FG (Func1_radd 0 (PyFunc 1) s_FG) \<and>
   new_combinator ClsProdFunction s_FG (Func1_mul 0 (PyFunc 1) s_FG) \<and>
   new_combinator ClsProdFunction s_FG (Func1_rmul 0 (PyFunc 1) s_FG) \<and>
   new_combinator ClsRatioFunction s_FG (Func1_div 0 (PyFunc 1) s_FG) \<and>
   new_combinator ClsRatioFunction s_FG (Func1_rdiv 0 (PyFunc 1) s_FG) \<and>
   take 2 (objs (snd (Func1_add 0 (PyFunc 1) s_FG))) = objs s_FG"
proof -
  have "length (objs s_FG) = 2" by (simp add: s_FG_eq)
  with operators_leave_operands [of s_FG 0 "PyFunc 1" 1] is_function_s_FG
  show ?thesis by (simp add: unchanged_def)
qed


text \<open>
  C4 (as amended).  For every function \<open>F\<close> and every Python float \<open>r\<close>,
  \<^verbatim>\<open>F.__add__(r)\<close> does what \<^verbatim>\<open>F.__add__(Polynomial([r]))\<close> does: it returns a new
  \<^verbatim>\<open>SumFunction\<close> whose left child is \<open>F\<close> and whose right child is a new \<^verbatim>\<open>Polynomial\<close>
  with \<^verbatim>\<open>n = 0\<close> and the one coefficient \<open>r\<close>.
\<close>

theorem add_promotes_float:
  assumes "is_function s f"
  shows "fst (Polynomial (PySeq [PyFloat r]) s) = Inr (PyFunc (length (objs s))) \<and>
         Func1_add f (PyFloat r) s =
           Func1_add f (PyFunc (length (objs s))) (snd (Polynomial (PySeq [PyFloat r]) s)) \<and>
         fst (Func1_add f (PyFloat r) s) = Inr (PyFunc (Suc (length (objs s)))) \<and>
         obj_cls (objs (snd (Func1_add f (PyFloat r) s)) ! Suc (length (objs s))) =
           ClsSumFunction \<and>
         attr_f1 (objs (snd (Func1_add f (PyFloat r) s)) ! Suc (length (objs s))) =
           Some (PyFunc f) \<and>
         attr_f2 (objs (snd (Func1_add f (PyFloat r) s)) ! Suc (length (objs s))) =
           Some (PyFunc (length (objs s))) \<and>
         leaf_view (snd (Func1_add f (PyFloat r) s)) (PyFunc (length (objs s))) =
           Some (ClsPolynomial, Some 0, Some ([1], [r]))"
proof -
  from assms obtain hf where f: "f < length (objs s)" "attr_func_id (objs s ! f) = Some hf"
    by (auto simp: is_function_def)
  define s1 where "s1 = snd (Polynomial (PySeq [PyFloat r]) s)"
  have P: "Polynomial (PySeq [PyFloat r]) s = (Inr (PyFunc (length (objs s))), s1)"
    using Polynomial_numbers [of "[NFloat r]" s] by (simp add: s1_def)
  have s1: "s1 = \<lparr>arrays = arrays s @ [\<lparr>typecode = TC_d, shape = [1], elems = [r]\<rparr>],
       objs = objs s @
         [\<lparr>obj_cls = ClsPolynomial, attr_n = Some 0,
           attr_coeffs = Some (length (arrays s)), attr_func_id = Some (length (engine s)),
           attr_f1 = None, attr_f2 = None\<rparr>],
       engine = engine s @ [FuncNew 2 0 [r]]\<rparr>"
    using Polynomial_numbers [of "[NFloat r]" s] by (simp add: s1_def)
  have f1: "f < length (objs s1)" "attr_func_id (objs s1 ! f) = Some hf"
    using f by (simp_all add: s1 nth_append)
  have p1: "length (objs s) < length (objs s1)"
    "attr_func_id (objs s1 ! length (objs s)) = Some (length (engine s))"
    by (simp_all add: s1)
  have a: "Func1_add f (PyFloat r) s =
           combo_init ClsSumFunction 20 (PyFunc f) (PyFunc (length (objs s))) s1"
    by (simp add: Func1_add_def is_FloatType_def Const_def P on_ok_def SumFunction_def)
  have b: "Func1_add f (PyFunc (length (objs s))) s1 =
           combo_init ClsSumFunction 20 (PyFunc f) (PyFunc (length (objs s))) s1"
    by (simp add: Func1_add_def is_FloatType_def SumFunction_def)
  have len: "length (objs s1) = Suc (length (objs s))"
    by (simp add: s1)
  note c = combo_init_functions [OF f1 p1, of ClsSumFunction 20]
  have view: "leaf_view (snd (combo_init ClsSumFunction 20 (PyFunc f) (PyFunc (length (objs s))) s1))
                (PyFunc (length (objs s))) = Some (ClsPolynomial, Some 0, Some ([1], [r]))"
    by (simp add: c leaf_view_def) (simp add: s1 nth_append)
  show ?thesis
    unfolding a
    by (intro conjI) (simp_all add: P b view, simp_all add: c len nth_append)
qed

theorem add_promotes_float_witness:
  "is_function s_F 0 \<and>
   fst (Func1_add 0 (PyFloat 3) s_F) = Inr (PyFunc 2) \<and>
   attr_f1 (objs (snd (Func1_add 0 (PyFloat 3) s_F)) ! 2) = Some (PyFunc 0) \<and>
   attr_f2 (objs (snd (Func1_add 0 (PyFloat 3) s_F)) ! 2) = Some (PyFunc 1) \<and>
   leaf_view (snd (Func1_add 0 (PyFloat 3) s_F)) (PyFunc 1) =
     Some (ClsPolynomial, Some 0, Some ([1], [3]))"
proof -
  have len: "length (objs s_F) = 1" "Suc 1 = 2"
    by (simp_all add: s_F_eq)
  from add_promotes_float [OF is_function_s_F, of 3] is_function_s_F
  show ?thesis unfolding len by blast
qed

text \<open>
  The claim as stated fails for a numeric scalar that is not a float.  With
  \<^verbatim>\<open>F = Polynomial([1.0])\<close>, \<^verbatim>\<open>F + 3\<close> does not pass the test
  \<^verbatim>\<open>type(other) == types.FloatType\<close>; \<^verbatim>\<open>SumFunction(F, 3)\<close> asks the integer for its
  \<^verbatim>\<open>func_id\<close> and raises \<^verbatim>\<open>AttributeError\<close>.
\<close>

theorem add_promotes_float_counterexample:
  "is_function s_F 0 \<and> fst (Func1_add 0 (PyInt 3) s_F) = Inl AttributeError"
  by (simp add: is_function_s_F) (simp add: s_F_eq model_defs)

text \<open>
  C1.  \<^verbatim>\<open>__mul__\<close>, \<^verbatim>\<open>__rmul__\<close>, \<^verbatim>\<open>__div__\<close> and \<^verbatim>\<open>__rdiv__\<close> do not wrap a float operand:
  with \<^verbatim>\<open>F = Polynomial([1.0])\<close>, each of \<^verbatim>\<open>F * 2.0\<close>, \<^verbatim>\<open>2.0 * F\<close>, \<^verbatim>\<open>F / 2.0\<close> and
  \<^verbatim>\<open>2.0 / F\<close> raises \<^verbatim>\<open>AttributeError\<close> and registers nothing with the engine, where
  \<^verbatim>\<open>F + 2.0\<close> registers the constant and the sum.
\<close>

theorem mul_div_do_not_promote:
  "is_function s_F 0 \<and>
   fst (Func1_mul 0 (PyFloat 2) s_F) = Inl AttributeError \<and>
   fst (Func1_rmul 0 (PyFloat 2) s_F) = Inl AttributeError \<and>
   fst (Func1_div 0 (PyFloat 2) s_F) = Inl AttributeError \<and>
   fst (Func1_rdiv 0 (PyFloat 2) s_F) = Inl AttributeError \<and>
   engine (snd (Func1_mul 0 (PyFloat 2) s_F)) = engine s_F \<and>
   engine (snd (Func1_rmul 0 (PyFloat 2) s_F)) = engine s_F \<and>
   engine (snd (Func1_div 0 (PyFloat 2) s_F)) = engine s_F \<and>
   engine (snd (Func1_rdiv 0 (PyFloat 2) s_F)) = engine s_F \<and>
   engine (snd (Func1_add 0 (PyFloat 2) s_F)) =
     engine s_F @ [FuncNew 2 0 [2], FuncNewCombo 20 0 1]"
  by (simp add: is_function_s_F) (simp add: s_F_eq model_defs)

text \<open>
  C10 (as amended).  When the terms given to \<^verbatim>\<open>Fourier\<close> are already an array of doubles
  with one row of two elements per term and at least one row, and \<open>om\<close> converts to a
  double, \<^verbatim>\<open>asarray\<close> returns that very array and the construction writes \<open>om\<close> into it:
  after the construction the caller's array has \<open>om\<close> as the second element of its first
  row and is otherwise as before.
\<close>

theorem Fourier_writes_callers_array:
  assumes "a < length (arrays s)"
    and "typecode (arrays s ! a) = TC_d"
    and "shape (arrays s ! a) = [n, 2]"
    and "0 < n"
    and "length (elems (arrays s ! a)) = n * 2"
    and "fits om"
  shows "fst (Fourier (of_number om) (PyArray a) s) = Inr (PyFunc (length (objs s))) \<and>
         arrays (snd (Fourier (of_number om) (PyArray a) s)) ! a =
           (arrays s ! a)\<lparr>elems := (elems (arrays s ! a))[1 := double_of om]\<rparr> \<and>
         elems (arrays (snd (Fourier (of_number om) (PyArray a) s)) ! a) ! 1 = double_of om"
proof -
  let ?s1 = "snd (alloc_obj ClsFourier s)"
  have conv: "asarray (PyArray a) ?s1 = (Inr a, ?s1\<lparr>arrays := arrays s\<rparr>)"
    using assms(1,2) by (simp add: asarray_def alloc_obj_def)
  note r = Fourier_body [OF conv assms(1) assms(3) assms(2) assms(4) assms(6) refl]
  from assms(4,5) have "1 < length (elems (arrays s ! a))" by simp
  with assms(1) show ?thesis
    by (simp add: r nth_append)
qed

theorem Fourier_writes_callers_array_witness:
  "fits (NFloat 2) \<and>
   fst (Fourier (PyFloat 2) (PyArray 0)
          \<lparr>arrays = [\<lparr>typecode = TC_d, shape = [2, 2], elems = [10, 11, 20, 21]\<rparr>],
           objs = [], engine = []\<rparr>) = Inr (PyFunc 0) \<and>
   arrays (snd (Fourier (PyFloat 2) (PyArray 0)
          \<lparr>arrays = [\<lparr>typecode = TC_d, shape = [2, 2], elems = [10, 11, 20, 21]\<rparr>],
           objs = [], engine = []\<rparr>)) ! 0 =
     \<lparr>typecode = TC_d, shape = [2, 2], elems = [10, 2, 20, 21]\<rparr>"
  using Fourier_writes_callers_array
    [of 0 "\<lparr>arrays = [\<lparr>typecode = TC_d, shape = [2, 2], elems = [10, 11, 20, 21]\<rparr>],
            objs = [], engine = []\<rparr>" 2 "NFloat 2"]
  by simp

text \<open>
  The claim as stated fails for an array of doubles of another shape.  With a caller's
  array of two rows of three elements, the shape check stops the construction before
  \<^verbatim>\<open>cc[0,1] = omega\<close>: the construction raises and the caller's array is as before.
\<close>

theorem Fourier_writes_callers_array_counterexample:
  "typecode \<lparr>typecode = TC_d, shape = [2, 3], elems = [1, 2, 3, 4, 5, 6]\<rparr> = TC_d \<and>
   isl (fst (Fourier (PyFloat 7) (PyArray 0)
          \<lparr>arrays = [\<lparr>typecode = TC_d, shape = [2, 3], elems = [1, 2, 3, 4, 5, 6]\<rparr>],
           objs = [], engine = []\<rparr>)) \<and>
   arrays (snd (Fourier (PyFloat 7) (PyArray 0)
          \<lparr>arrays = [\<lparr>typecode = TC_d, shape = [2, 3], elems = [1, 2, 3, 4, 5, 6]\<rparr>],
           objs = [], engine = []\<rparr>)) =
     [\<lparr>typecode = TC_d, shape = [2, 3], elems = [1, 2, 3, 4, 5, 6]\<rparr>]"
  by (simp add: Fourier_def alloc_obj_def on_ok_def asarray_def unpack2_def raise_unbound_def)

end
